theory Spec2Isabelle
  imports Main "HOL-Library.Multiset" "HOL-Library.Product_Lexorder"
    "HOL-Library.Char_ord" "HOL-Library.List_Lexorder"
begin

section \<open>Kanban board service: data model\<close>

text \<open>
  The resolvers of \<^verbatim>\<open>src/graphql/resolvers/index.ts\<close> and the guards of
  \<^verbatim>\<open>src/auth/guards.ts\<close> are embedded as functions on an explicit store.

  \<^item> Every table of \<^verbatim>\<open>migration.sql\<close> is a list of rows in creation order; a row is a
    record. Identifiers (Prisma cuid strings) are natural numbers drawn from the counter
    \<open>nextId\<close> of the store. Timestamps (\<open>createdAt\<close>, \<open>updatedAt\<close>, \<open>joinedAt\<close>) and the
    password hash are left out.
  \<^item> A resolver takes the store and returns its outcome together with the store it leaves
    behind: the source runs its writes one after another with no transaction, so a failure
    after a write keeps that write.
  \<^item> The four error kinds of \<^verbatim>\<open>src/errors.ts\<close> are constructors of \<open>error\<close>; \<open>Internal\<close>
    stands for any other exception (a constraint violation raised by the store, a
    \<^verbatim>\<open>TypeError\<close>).
  \<^item> The store enforces its foreign keys and unique indexes: a reference supplied by the
    caller (the actor of the token, an \<open>input.projectId\<close>, an \<open>assigneeId\<close>) is checked
    when the row is written; a reference read from a stored row is taken to resolve.
  \<^item> \<^verbatim>\<open>Int!\<close> arguments are integers (\<open>int\<close>), so \<^verbatim>\<open>Number.isInteger\<close> holds of them.
\<close>

type_synonym ident = nat

datatype error = Unauthenticated | Forbidden | BadInput | NotFound | Internal

datatype Role = ADMIN | USER
datatype ProjectRole = OWNER | MEMBER
datatype TaskStatus = TODO | IN_PROGRESS | DONE | ARCHIVED
datatype InvitationStatus = PENDING | ACCEPTED | REVOKED

datatype json = JNull | JStr string | JNum int | JId ident | JArr "json list"
  | JObj "(string \<times> json) list"

record AuthUser =
  au_id :: ident
  au_role :: Role

record GraphQLContext =
  ctx_user :: "AuthUser option"

record User =
  u_id :: ident
  u_email :: string
  u_role :: Role
  u_displayName :: string

record Project =
  p_id :: ident
  p_name :: string
  p_ownerId :: ident

record ProjectMember =
  m_id :: ident
  m_projectId :: ident
  m_userId :: ident
  m_projectRole :: ProjectRole

record Column =
  c_id :: ident
  c_title :: string
  c_position :: int
  c_projectId :: ident

record Task =
  t_id :: ident
  t_title :: string
  t_description :: "string option"
  t_dueDate :: "string option"
  t_position :: int
  t_status :: TaskStatus
  t_columnId :: ident
  t_creatorId :: ident
  t_assigneeId :: "ident option"

record Comment =
  k_id :: ident
  k_content :: string
  k_taskId :: ident
  k_authorId :: ident

record Label =
  l_id :: ident
  l_name :: string
  l_color :: "string option"
  l_projectId :: ident

record TaskLabel =
  tl_id :: ident
  tl_taskId :: ident
  tl_labelId :: ident

record Invitation =
  i_id :: ident
  i_email :: string
  i_token :: string
  i_status :: InvitationStatus
  i_projectId :: ident
  i_invitedById :: ident

record ActivityLog =
  a_id :: ident
  a_action :: string
  a_details :: json
  a_actorId :: ident
  a_projectId :: ident
  a_taskId :: "ident option"

record store =
  users :: "User list"
  projects :: "Project list"
  members :: "ProjectMember list"
  columns :: "Column list"
  tasks :: "Task list"
  comments :: "Comment list"
  labels :: "Label list"
  taskLabels :: "TaskLabel list"
  invitations :: "Invitation list"
  activity :: "ActivityLog list"
  nextId :: ident

definition empty_store :: store where
  "empty_store = \<lparr>users = [], projects = [], members = [], columns = [], tasks = [],
     comments = [], labels = [], taskLabels = [], invitations = [], activity = [],
     nextId = 0\<rparr>"

subsection \<open>Strings\<close>

text \<open>\<^verbatim>\<open>String.prototype.trim\<close> and \<^verbatim>\<open>toLowerCase\<close> on the ASCII range.\<close>

definition is_space :: "char \<Rightarrow> bool" where
  "is_space c = ((of_char c :: nat) \<in> {9, 10, 11, 12, 13, 32})"

definition trim :: "string \<Rightarrow> string" where
  "trim s = rev (dropWhile is_space (rev (dropWhile is_space s)))"

definition lower_char :: "char \<Rightarrow> char" where
  "lower_char c = (let n = (of_char c :: nat) in
     if 65 \<le> n \<and> n \<le> 90 then char_of (n + 32) else c)"

definition toLowerCase :: "string \<Rightarrow> string" where
  "toLowerCase s = map lower_char s"

subsection \<open>Guards (\<^verbatim>\<open>src/auth/guards.ts\<close>)\<close>

text \<open>A guard that passes hands back the authenticated user, the \<^verbatim>\<open>ctx.user!\<close> of the
  code that follows it.\<close>

definition requireAuth :: "GraphQLContext \<Rightarrow> error + AuthUser" where
  "requireAuth ctx = (case ctx_user ctx of None \<Rightarrow> Inl Unauthenticated | Some u \<Rightarrow> Inr u)"

definition findMembership :: "store \<Rightarrow> ident \<Rightarrow> ident \<Rightarrow> ProjectMember option" where
  "findMembership s projectId userId =
     find (\<lambda>m. m_projectId m = projectId \<and> m_userId m = userId) (members s)"

definition requireProjectMember :: "GraphQLContext \<Rightarrow> ident \<Rightarrow> store \<Rightarrow> error + AuthUser" where
  "requireProjectMember ctx projectId s =
     (case requireAuth ctx of Inl e \<Rightarrow> Inl e
      | Inr u \<Rightarrow>
          if au_role u = ADMIN then Inr u
          else (case findMembership s projectId (au_id u) of
                  None \<Rightarrow> Inl Forbidden
                | Some m \<Rightarrow> Inr u))"

definition requireProjectOwnerOrAdmin :: "GraphQLContext \<Rightarrow> ident \<Rightarrow> store \<Rightarrow> error + AuthUser" where
  "requireProjectOwnerOrAdmin ctx projectId s =
     (case requireAuth ctx of Inl e \<Rightarrow> Inl e
      | Inr u \<Rightarrow>
          if au_role u = ADMIN then Inr u
          else (case findMembership s projectId (au_id u) of
                  None \<Rightarrow> Inl Forbidden
                | Some m \<Rightarrow> if m_projectRole m \<noteq> OWNER then Inl Forbidden else Inr u))"

definition findColumn :: "store \<Rightarrow> ident \<Rightarrow> Column option" where
  "findColumn s columnId = find (\<lambda>c. c_id c = columnId) (columns s)"

definition findTask :: "store \<Rightarrow> ident \<Rightarrow> Task option" where
  "findTask s taskId = find (\<lambda>t. t_id t = taskId) (tasks s)"

definition getProjectIdByColumnId :: "store \<Rightarrow> ident \<Rightarrow> error + ident" where
  "getProjectIdByColumnId s columnId =
     (case findColumn s columnId of None \<Rightarrow> Inl NotFound | Some col \<Rightarrow> Inr (c_projectId col))"

definition getProjectIdByTaskId :: "store \<Rightarrow> ident \<Rightarrow> error + ident" where
  "getProjectIdByTaskId s taskId =
     (case findTask s taskId of None \<Rightarrow> Inl NotFound
      | Some task \<Rightarrow>
          (case findColumn s (t_columnId task) of None \<Rightarrow> Inl Internal
           | Some col \<Rightarrow> Inr (c_projectId col)))"

subsection \<open>Store primitives\<close>

definition userExists :: "store \<Rightarrow> ident \<Rightarrow> bool" where
  "userExists s uid = (find (\<lambda>u. u_id u = uid) (users s) \<noteq> None)"

definition projectExists :: "store \<Rightarrow> ident \<Rightarrow> bool" where
  "projectExists s pid = (find (\<lambda>p. p_id p = pid) (projects s) \<noteq> None)"

text \<open>\<^verbatim>\<open>prisma.activityLog.create\<close>: one row appended; the actor must be a stored user.\<close>

definition activityLog_create ::
  "string \<Rightarrow> ident \<Rightarrow> ident \<Rightarrow> ident option \<Rightarrow> json \<Rightarrow> store \<Rightarrow> store option" where
  "activityLog_create action actorId projectId taskId details s =
     (if \<not> userExists s actorId then None
      else Some (s\<lparr>activity := activity s @
             [\<lparr>a_id = nextId s, a_action = action, a_details = details, a_actorId = actorId,
               a_projectId = projectId, a_taskId = taskId\<rparr>],
           nextId := Suc (nextId s)\<rparr>))"

section \<open>Mutations\<close>

subsection \<open>createProject\<close>

definition createProject :: "GraphQLContext \<Rightarrow> string \<Rightarrow> store \<Rightarrow> (error + Project) \<times> store" where
  "createProject ctx input_name s =
     (case requireAuth ctx of Inl e \<Rightarrow> (Inl e, s)
      | Inr u \<Rightarrow>
          let name = trim input_name in
          if length name < 1 then (Inl BadInput, s)
          else if \<not> userExists s (au_id u) then (Inl Internal, s)
          else
            let n = nextId s;
                project = \<lparr>p_id = n, p_name = name, p_ownerId = au_id u\<rparr>
            in (Inr project,
                s\<lparr>projects := projects s @ [project],
                  members := members s @
                    [\<lparr>m_id = n + 1, m_projectId = n, m_userId = au_id u, m_projectRole = OWNER\<rparr>],
                  columns := columns s @
                    [\<lparr>c_id = n + 2, c_title = ''To Do'', c_position = 1, c_projectId = n\<rparr>,
                     \<lparr>c_id = n + 3, c_title = ''In Progress'', c_position = 2, c_projectId = n\<rparr>,
                     \<lparr>c_id = n + 4, c_title = ''Done'', c_position = 3, c_projectId = n\<rparr>],
                  activity := activity s @
                    [\<lparr>a_id = n + 5, a_action = ''PROJECT_CREATED'',
                      a_details = JObj [(''name'', JStr name)], a_actorId = au_id u,
                      a_projectId = n, a_taskId = None\<rparr>],
                  nextId := n + 6\<rparr>))"

subsection \<open>createColumn\<close>

record CreateColumnInput =
  cci_projectId :: ident
  cci_title :: string
  cci_position :: int

definition shiftColumns :: "ident \<Rightarrow> int \<Rightarrow> Column list \<Rightarrow> Column list" where
  "shiftColumns projectId pos cs =
     map (\<lambda>c. if c_projectId c = projectId \<and> pos \<le> c_position c
               then c\<lparr>c_position := c_position c + 1\<rparr> else c) cs"

definition createColumn ::
  "GraphQLContext \<Rightarrow> CreateColumnInput \<Rightarrow> store \<Rightarrow> (error + Column) \<times> store" where
  "createColumn ctx input s =
     (case requireProjectOwnerOrAdmin ctx (cci_projectId input) s of Inl e \<Rightarrow> (Inl e, s)
      | Inr u \<Rightarrow>
          if length (trim (cci_title input)) < 1 then (Inl BadInput, s)
          else if cci_position input < 1 then (Inl BadInput, s)
          else
            let s1 = s\<lparr>columns := shiftColumns (cci_projectId input) (cci_position input) (columns s)\<rparr>
            in if \<not> projectExists s1 (cci_projectId input) then (Inl Internal, s1)
               else
                 let col = \<lparr>c_id = nextId s1, c_title = trim (cci_title input),
                            c_position = cci_position input, c_projectId = cci_projectId input\<rparr>;
                     s2 = s1\<lparr>columns := columns s1 @ [col], nextId := Suc (nextId s1)\<rparr>
                 in (case activityLog_create ''COLUMN_CREATED'' (au_id u) (cci_projectId input) None
                            (JObj [(''columnId'', JId (c_id col)), (''title'', JStr (c_title col))]) s2 of
                       None \<Rightarrow> (Inl Internal, s2)
                     | Some s3 \<Rightarrow> (Inr col, s3)))"

subsection \<open>createTask\<close>

record CreateTaskInput =
  cti_columnId :: ident
  cti_title :: string
  cti_description :: "string option"
  cti_dueDate :: "string option"
  cti_assigneeId :: "ident option"

text \<open>\<^verbatim>\<open>findFirst({where: {columnId}, orderBy: {position: "desc"}})\<close>: the largest position of
  the column, if it has a task.\<close>

definition lastPosition :: "store \<Rightarrow> ident \<Rightarrow> int option" where
  "lastPosition s columnId =
     (case map t_position (filter (\<lambda>t. t_columnId t = columnId) (tasks s)) of
        [] \<Rightarrow> None
      | p # ps \<Rightarrow> Some (fold max ps p))"

text \<open>\<^verbatim>\<open>x?.trim() || null\<close>\<close>

definition trimOrNull :: "string option \<Rightarrow> string option" where
  "trimOrNull x = (case x of None \<Rightarrow> None
     | Some d \<Rightarrow> if trim d = [] then None else Some (trim d))"

definition assigneeAllowed :: "store \<Rightarrow> AuthUser \<Rightarrow> ident \<Rightarrow> ident option \<Rightarrow> bool" where
  "assigneeAllowed s u projectId assigneeId =
     (case assigneeId of None \<Rightarrow> True
      | Some a \<Rightarrow> \<not> (findMembership s projectId a = None \<and> au_role u \<noteq> ADMIN))"

definition assigneeResolves :: "store \<Rightarrow> ident option \<Rightarrow> bool" where
  "assigneeResolves s assigneeId = (case assigneeId of None \<Rightarrow> True | Some a \<Rightarrow> userExists s a)"

definition createTask ::
  "GraphQLContext \<Rightarrow> CreateTaskInput \<Rightarrow> store \<Rightarrow> (error + Task) \<times> store" where
  "createTask ctx input s =
     (case getProjectIdByColumnId s (cti_columnId input) of Inl e \<Rightarrow> (Inl e, s)
      | Inr projectId \<Rightarrow>
     (case requireProjectMember ctx projectId s of Inl e \<Rightarrow> (Inl e, s)
      | Inr u \<Rightarrow>
          let title = trim (cti_title input) in
          if length title < 1 then (Inl BadInput, s)
          else if \<not> assigneeAllowed s u projectId (cti_assigneeId input) then (Inl Forbidden, s)
          else
            let position = (case lastPosition s (cti_columnId input) of None \<Rightarrow> 0 | Some p \<Rightarrow> p) + 1
            in if \<not> userExists s (au_id u) \<or> \<not> assigneeResolves s (cti_assigneeId input)
               then (Inl Internal, s)
               else
                 let task = \<lparr>t_id = nextId s, t_title = title,
                             t_description = trimOrNull (cti_description input),
                             t_dueDate = cti_dueDate input, t_position = position,
                             t_status = TODO, t_columnId = cti_columnId input,
                             t_creatorId = au_id u, t_assigneeId = cti_assigneeId input\<rparr>;
                     s1 = s\<lparr>tasks := tasks s @ [task], nextId := Suc (nextId s)\<rparr>
                 in (case activityLog_create ''TASK_CREATED'' (au_id u) projectId (Some (t_id task))
                            (JObj [(''title'', JStr (t_title task)),
                                   (''columnId'', JId (t_columnId task))]) s1 of
                       None \<Rightarrow> (Inl Internal, s1)
                     | Some s2 \<Rightarrow> (Inr task, s2))))"

subsection \<open>moveTask\<close>

record MoveTaskInput =
  mti_taskId :: ident
  mti_toColumnId :: ident
  mti_toPosition :: int

text \<open>\<^verbatim>\<open>task.updateMany({where: {columnId, position: {gte}}, data: {position: {increment: 1}}})\<close>\<close>

definition shiftTasks :: "ident \<Rightarrow> int \<Rightarrow> Task list \<Rightarrow> Task list" where
  "shiftTasks columnId pos ts =
     map (\<lambda>t. if t_columnId t = columnId \<and> pos \<le> t_position t
               then t\<lparr>t_position := t_position t + 1\<rparr> else t) ts"

text \<open>\<^verbatim>\<open>task.update({where: {id}, data: {columnId, position}})\<close>\<close>

definition placeTask :: "ident \<Rightarrow> ident \<Rightarrow> int \<Rightarrow> Task list \<Rightarrow> Task list" where
  "placeTask taskId columnId pos ts =
     map (\<lambda>t. if t_id t = taskId then t\<lparr>t_columnId := columnId, t_position := pos\<rparr> else t) ts"

definition setPosition :: "ident \<Rightarrow> int \<Rightarrow> Task list \<Rightarrow> Task list" where
  "setPosition taskId pos ts =
     map (\<lambda>t. if t_id t = taskId then t\<lparr>t_position := pos\<rparr> else t) ts"

text \<open>\<^verbatim>\<open>findMany({where: {columnId}, orderBy: {position: "asc"}, select: {id}})\<close>; rows of
  equal position come in table order.\<close>

definition sourceTasks :: "ident \<Rightarrow> Task list \<Rightarrow> ident list" where
  "sourceTasks columnId ts = map t_id (sort_key t_position (filter (\<lambda>t. t_columnId t = columnId) ts))"

text \<open>\<^verbatim>\<open>sourceTasks.map((t, idx) => task.update({where: {id: t.id}, data: {position: idx + 1}}))\<close>;
  \<open>k\<close> is \<open>idx + 1\<close>.\<close>

fun renumber :: "ident list \<Rightarrow> int \<Rightarrow> Task list \<Rightarrow> Task list" where
  "renumber [] k ts = ts"
| "renumber (i # ids) k ts = renumber ids (k + 1) (setPosition i k ts)"

definition moveTask ::
  "GraphQLContext \<Rightarrow> MoveTaskInput \<Rightarrow> store \<Rightarrow> (error + Task) \<times> store" where
  "moveTask ctx input s =
     (case getProjectIdByTaskId s (mti_taskId input) of Inl e \<Rightarrow> (Inl e, s)
      | Inr fromProjectId \<Rightarrow>
     (case getProjectIdByColumnId s (mti_toColumnId input) of Inl e \<Rightarrow> (Inl e, s)
      | Inr toProjectId \<Rightarrow>
          if fromProjectId \<noteq> toProjectId then (Inl Forbidden, s)
          else
     (case requireProjectMember ctx fromProjectId s of Inl e \<Rightarrow> (Inl e, s)
      | Inr u \<Rightarrow>
          if mti_toPosition input < 1 then (Inl BadInput, s)
          else
     (case findTask s (mti_taskId input) of None \<Rightarrow> (Inl NotFound, s)
      | Some task \<Rightarrow>
          let ts1 = shiftTasks (mti_toColumnId input) (mti_toPosition input) (tasks s);
              ts2 = placeTask (mti_taskId input) (mti_toColumnId input) (mti_toPosition input) ts1
          in (case find (\<lambda>t. t_id t = mti_taskId input) ts2 of None \<Rightarrow> (Inl Internal, s\<lparr>tasks := ts1\<rparr>)
              | Some moved \<Rightarrow>
                  let ts3 = renumber (sourceTasks (t_columnId task) ts2) 1 ts2;
                      s1 = s\<lparr>tasks := ts3\<rparr>
                  in (case activityLog_create ''TASK_MOVED'' (au_id u) fromProjectId (Some (t_id moved))
                             (JObj [(''fromColumnId'', JId (t_columnId task)),
                                    (''toColumnId'', JId (mti_toColumnId input)),
                                    (''toPosition'', JNum (mti_toPosition input))]) s1 of
                        None \<Rightarrow> (Inl Internal, s1)
                      | Some s2 \<Rightarrow> (Inr moved, s2)))))))"

subsection \<open>updateTask\<close>

text \<open>An optional nullable input field: left out (\<^verbatim>\<open>undefined\<close>), \<^verbatim>\<open>null\<close>, or a value.\<close>

datatype 'a arg = Absent | Null | Given 'a

record UpdateTaskInput =
  uti_title :: "string arg"
  uti_description :: "string arg"
  uti_dueDate :: "string arg"
  uti_status :: "TaskStatus arg"

definition argOption :: "'a arg \<Rightarrow> 'a option" where
  "argOption a = (case a of Given v \<Rightarrow> Some v | _ \<Rightarrow> None)"

definition applyUpdate :: "UpdateTaskInput \<Rightarrow> Task \<Rightarrow> Task" where
  "applyUpdate input t =
     (let t1 = (case uti_title input of Given x \<Rightarrow> t\<lparr>t_title := trim x\<rparr> | _ \<Rightarrow> t);
          t2 = (if uti_description input \<noteq> Absent
                then t1\<lparr>t_description := trimOrNull (argOption (uti_description input))\<rparr> else t1);
          t3 = (if uti_dueDate input \<noteq> Absent
                then t2\<lparr>t_dueDate := argOption (uti_dueDate input)\<rparr> else t2)
      in (case uti_status input of Given x \<Rightarrow> t3\<lparr>t_status := x\<rparr> | _ \<Rightarrow> t3))"

text \<open>\<^verbatim>\<open>Object.keys(data)\<close>\<close>

definition changedKeys :: "UpdateTaskInput \<Rightarrow> json list" where
  "changedKeys input =
     (if uti_title input \<noteq> Absent then [JStr ''title''] else []) @
     (if uti_description input \<noteq> Absent then [JStr ''description''] else []) @
     (if uti_dueDate input \<noteq> Absent then [JStr ''dueDate''] else []) @
     (if uti_status input \<noteq> Absent then [JStr ''status''] else [])"

definition updateTask ::
  "GraphQLContext \<Rightarrow> ident \<Rightarrow> UpdateTaskInput \<Rightarrow> store \<Rightarrow> (error + Task) \<times> store" where
  "updateTask ctx taskId input s =
     (case getProjectIdByTaskId s taskId of Inl e \<Rightarrow> (Inl e, s)
      | Inr projectId \<Rightarrow>
     (case requireProjectMember ctx projectId s of Inl e \<Rightarrow> (Inl e, s)
      | Inr u \<Rightarrow>
     (case findTask s taskId of None \<Rightarrow> (Inl NotFound, s)
      | Some task \<Rightarrow>
          if uti_title input = Null then (Inl Internal, s)
          else if (case uti_title input of Given x \<Rightarrow> length (trim x) < 1 | _ \<Rightarrow> False)
          then (Inl BadInput, s)
          else if uti_status input = Null then (Inl Internal, s)
          else
            let updated = applyUpdate input task;
                s1 = s\<lparr>tasks := map (\<lambda>t. if t_id t = taskId then applyUpdate input t else t) (tasks s)\<rparr>
            in (case activityLog_create ''TASK_UPDATED'' (au_id u) projectId (Some taskId)
                       (JObj [(''changes'', JArr (changedKeys input))]) s1 of
                  None \<Rightarrow> (Inl Internal, s1)
                | Some s2 \<Rightarrow> (Inr updated, s2)))))"

subsection \<open>assignTask\<close>

definition assignTask ::
  "GraphQLContext \<Rightarrow> ident \<Rightarrow> ident option \<Rightarrow> store \<Rightarrow> (error + Task) \<times> store" where
  "assignTask ctx taskId assigneeId s =
     (case getProjectIdByTaskId s taskId of Inl e \<Rightarrow> (Inl e, s)
      | Inr projectId \<Rightarrow>
     (case requireProjectMember ctx projectId s of Inl e \<Rightarrow> (Inl e, s)
      | Inr u \<Rightarrow>
          if \<not> assigneeAllowed s u projectId assigneeId then (Inl Forbidden, s)
          else
     (case findTask s taskId of None \<Rightarrow> (Inl Internal, s)
      | Some task \<Rightarrow>
          if \<not> assigneeResolves s assigneeId then (Inl Internal, s)
          else
            let updated = task\<lparr>t_assigneeId := assigneeId\<rparr>;
                s1 = s\<lparr>tasks := map (\<lambda>t. if t_id t = taskId then t\<lparr>t_assigneeId := assigneeId\<rparr> else t)
                                   (tasks s)\<rparr>
            in (case activityLog_create ''TASK_ASSIGNED'' (au_id u) projectId (Some taskId)
                       (JObj [(''assigneeId'', (case assigneeId of None \<Rightarrow> JNull | Some a \<Rightarrow> JId a))]) s1 of
                  None \<Rightarrow> (Inl Internal, s1)
                | Some s2 \<Rightarrow> (Inr updated, s2)))))"

subsection \<open>commentTask\<close>

record CommentTaskInput =
  cmi_taskId :: ident
  cmi_content :: string

definition commentTask ::
  "GraphQLContext \<Rightarrow> CommentTaskInput \<Rightarrow> store \<Rightarrow> (error + Comment) \<times> store" where
  "commentTask ctx input s =
     (case requireAuth ctx of Inl e \<Rightarrow> (Inl e, s)
      | Inr u0 \<Rightarrow>
     (case getProjectIdByTaskId s (cmi_taskId input) of Inl e \<Rightarrow> (Inl e, s)
      | Inr projectId \<Rightarrow>
     (case requireProjectMember ctx projectId s of Inl e \<Rightarrow> (Inl e, s)
      | Inr u \<Rightarrow>
          let content = trim (cmi_content input) in
          if length content < 1 then (Inl BadInput, s)
          else if \<not> userExists s (au_id u) then (Inl Internal, s)
          else
            let comment = \<lparr>k_id = nextId s, k_content = content, k_taskId = cmi_taskId input,
                           k_authorId = au_id u\<rparr>;
                s1 = s\<lparr>comments := comments s @ [comment], nextId := Suc (nextId s)\<rparr>
            in (case activityLog_create ''COMMENT_ADDED'' (au_id u) projectId (Some (cmi_taskId input))
                       (JObj [(''commentId'', JId (k_id comment))]) s1 of
                  None \<Rightarrow> (Inl Internal, s1)
                | Some s2 \<Rightarrow> (Inr comment, s2)))))"

subsection \<open>inviteMember\<close>

record InviteMemberInput =
  imi_projectId :: ident
  imi_email :: string

text \<open>\<open>randomToken 40\<close> is drawn by the environment and passed in as \<open>token\<close>.\<close>

definition inviteMember ::
  "GraphQLContext \<Rightarrow> InviteMemberInput \<Rightarrow> string \<Rightarrow> store \<Rightarrow> (error + Invitation) \<times> store" where
  "inviteMember ctx input token s =
     (case requireProjectOwnerOrAdmin ctx (imi_projectId input) s of Inl e \<Rightarrow> (Inl e, s)
      | Inr u \<Rightarrow>
          let email = toLowerCase (trim (imi_email input)) in
          if CHR ''@'' \<notin> set email then (Inl BadInput, s)
          else if \<not> projectExists s (imi_projectId input) \<or> \<not> userExists s (au_id u)
                  \<or> find (\<lambda>i. i_token i = token) (invitations s) \<noteq> None
          then (Inl Internal, s)
          else
            let invite = \<lparr>i_id = nextId s, i_email = email, i_token = token, i_status = PENDING,
                          i_projectId = imi_projectId input, i_invitedById = au_id u\<rparr>;
                s1 = s\<lparr>invitations := invitations s @ [invite], nextId := Suc (nextId s)\<rparr>
            in (case activityLog_create ''MEMBER_INVITED'' (au_id u) (imi_projectId input) None
                       (JObj [(''email'', JStr email)]) s1 of
                  None \<Rightarrow> (Inl Internal, s1)
                | Some s2 \<Rightarrow> (Inr invite, s2)))"

subsection \<open>acceptInvite\<close>

text \<open>\<^verbatim>\<open>projectMember.upsert({where: {projectId_userId}, update: {}, create: {..., MEMBER}})\<close>:
  the stored row, untouched, when there is one; a new \<open>MEMBER\<close> row otherwise.\<close>

definition upsertMembership :: "ident \<Rightarrow> ident \<Rightarrow> store \<Rightarrow> ProjectMember \<times> store" where
  "upsertMembership projectId userId s =
     (case findMembership s projectId userId of
        Some m \<Rightarrow> (m, s)
      | None \<Rightarrow>
          let m = \<lparr>m_id = nextId s, m_projectId = projectId, m_userId = userId,
                   m_projectRole = MEMBER\<rparr>
          in (m, s\<lparr>members := members s @ [m], nextId := Suc (nextId s)\<rparr>))"

definition acceptInvite ::
  "GraphQLContext \<Rightarrow> string \<Rightarrow> store \<Rightarrow> (error + ProjectMember) \<times> store" where
  "acceptInvite ctx token s =
     (case requireAuth ctx of Inl e \<Rightarrow> (Inl e, s)
      | Inr u \<Rightarrow>
     (case find (\<lambda>i. i_token i = token) (invitations s) of None \<Rightarrow> (Inl NotFound, s)
      | Some invite \<Rightarrow>
          if i_status invite \<noteq> PENDING then (Inl BadInput, s)
          else
     (case find (\<lambda>x. u_id x = au_id u) (users s) of None \<Rightarrow> (Inl Unauthenticated, s)
      | Some usr \<Rightarrow>
          if toLowerCase (u_email usr) \<noteq> toLowerCase (i_email invite) \<and> au_role u \<noteq> ADMIN
          then (Inl Forbidden, s)
          else
            let (membership, s1) = upsertMembership (i_projectId invite) (au_id u) s;
                s2 = s1\<lparr>invitations := map (\<lambda>i. if i_token i = token then i\<lparr>i_status := ACCEPTED\<rparr> else i)
                                         (invitations s1)\<rparr>
            in (case activityLog_create ''INVITE_ACCEPTED'' (au_id u) (i_projectId invite) None
                       (JObj [(''email'', JStr (i_email invite))]) s2 of
                  None \<Rightarrow> (Inl Internal, s2)
                | Some s3 \<Rightarrow> (Inr membership, s3)))))"

subsection \<open>createLabel\<close>

record CreateLabelInput =
  cli_projectId :: ident
  cli_name :: string
  cli_color :: "string option"

definition createLabel ::
  "GraphQLContext \<Rightarrow> CreateLabelInput \<Rightarrow> store \<Rightarrow> (error + Label) \<times> store" where
  "createLabel ctx input s =
     (case requireProjectOwnerOrAdmin ctx (cli_projectId input) s of Inl e \<Rightarrow> (Inl e, s)
      | Inr u \<Rightarrow>
          let name = trim (cli_name input) in
          if length name < 1 then (Inl BadInput, s)
          else if \<not> projectExists s (cli_projectId input)
                  \<or> find (\<lambda>l. l_projectId l = cli_projectId input \<and> l_name l = name) (labels s) \<noteq> None
          then (Inl Internal, s)
          else
            let label = \<lparr>l_id = nextId s, l_name = name, l_color = trimOrNull (cli_color input),
                         l_projectId = cli_projectId input\<rparr>;
                s1 = s\<lparr>labels := labels s @ [label], nextId := Suc (nextId s)\<rparr>
            in (case activityLog_create ''LABEL_CREATED'' (au_id u) (cli_projectId input) None
                       (JObj [(''labelId'', JId (l_id label)), (''name'', JStr (l_name label))]) s1 of
                  None \<Rightarrow> (Inl Internal, s1)
                | Some s2 \<Rightarrow> (Inr label, s2)))"

subsection \<open>addLabelToTask, removeLabelFromTask\<close>

text \<open>\<^verbatim>\<open>taskLabel.upsert({where: {taskId_labelId}, update: {}, create: {taskId, labelId}})\<close>\<close>

definition upsertTaskLabel :: "ident \<Rightarrow> ident \<Rightarrow> store \<Rightarrow> store" where
  "upsertTaskLabel taskId labelId s =
     (case find (\<lambda>x. tl_taskId x = taskId \<and> tl_labelId x = labelId) (taskLabels s) of
        Some x \<Rightarrow> s
      | None \<Rightarrow> s\<lparr>taskLabels := taskLabels s @
                     [\<lparr>tl_id = nextId s, tl_taskId = taskId, tl_labelId = labelId\<rparr>],
                   nextId := Suc (nextId s)\<rparr>)"

definition addLabelToTask ::
  "GraphQLContext \<Rightarrow> ident \<Rightarrow> ident \<Rightarrow> store \<Rightarrow> (error + Task) \<times> store" where
  "addLabelToTask ctx taskId labelId s =
     (case getProjectIdByTaskId s taskId of Inl e \<Rightarrow> (Inl e, s)
      | Inr projectId \<Rightarrow>
     (case requireProjectMember ctx projectId s of Inl e \<Rightarrow> (Inl e, s)
      | Inr u \<Rightarrow>
     (case find (\<lambda>l. l_id l = labelId) (labels s) of None \<Rightarrow> (Inl NotFound, s)
      | Some label \<Rightarrow>
          if l_projectId label \<noteq> projectId then (Inl Forbidden, s)
          else
            let s1 = upsertTaskLabel taskId labelId s
            in (case activityLog_create ''LABEL_ADDED_TO_TASK'' (au_id u) projectId (Some taskId)
                       (JObj [(''labelId'', JId labelId)]) s1 of
                  None \<Rightarrow> (Inl Internal, s1)
                | Some s2 \<Rightarrow>
                    (case findTask s2 taskId of None \<Rightarrow> (Inl NotFound, s2)
                     | Some task \<Rightarrow> (Inr task, s2))))))"

definition removeLabelFromTask ::
  "GraphQLContext \<Rightarrow> ident \<Rightarrow> ident \<Rightarrow> store \<Rightarrow> (error + Task) \<times> store" where
  "removeLabelFromTask ctx taskId labelId s =
     (case getProjectIdByTaskId s taskId of Inl e \<Rightarrow> (Inl e, s)
      | Inr projectId \<Rightarrow>
     (case requireProjectMember ctx projectId s of Inl e \<Rightarrow> (Inl e, s)
      | Inr u \<Rightarrow>
     (case find (\<lambda>l. l_id l = labelId) (labels s) of None \<Rightarrow> (Inl NotFound, s)
      | Some label \<Rightarrow>
          if l_projectId label \<noteq> projectId then (Inl Forbidden, s)
          else
            let s1 = s\<lparr>taskLabels := filter (\<lambda>x. \<not> (tl_taskId x = taskId \<and> tl_labelId x = labelId))
                                        (taskLabels s)\<rparr>
            in (case activityLog_create ''LABEL_REMOVED_FROM_TASK'' (au_id u) projectId (Some taskId)
                       (JObj [(''labelId'', JId labelId)]) s1 of
                  None \<Rightarrow> (Inl Internal, s1)
                | Some s2 \<Rightarrow>
                    (case findTask s2 taskId of None \<Rightarrow> (Inl NotFound, s2)
                     | Some task \<Rightarrow> (Inr task, s2))))))"

section \<open>Queries and field resolvers\<close>

record 'a Page =
  items :: "'a list"
  total :: nat
  offset :: nat
  limit :: nat

text \<open>\<^verbatim>\<open>parseOrThrow(paginationSchema, args)\<close>\<close>

definition parsePagination :: "int \<Rightarrow> int \<Rightarrow> error + nat \<times> nat" where
  "parsePagination off lim =
     (if 0 \<le> off \<and> 1 \<le> lim \<and> lim \<le> 50 then Inr (nat off, nat lim) else Inl BadInput)"

definition page :: "'a list \<Rightarrow> nat \<times> nat \<Rightarrow> 'a Page" where
  "page rows ol = \<lparr>items = take (snd ol) (drop (fst ol) rows), total = length rows,
                   offset = fst ol, limit = snd ol\<rparr>"

definition project_query :: "GraphQLContext \<Rightarrow> ident \<Rightarrow> store \<Rightarrow> error + Project" where
  "project_query ctx projectId s =
     (case requireProjectMember ctx projectId s of Inl e \<Rightarrow> Inl e
      | Inr u \<Rightarrow>
          (case find (\<lambda>p. p_id p = projectId) (projects s) of None \<Rightarrow> Inl NotFound
           | Some p \<Rightarrow> Inr p))"

text \<open>Rows of the \<open>tasks\<close> query are ordered by column position, then position, then newest
  first.\<close>

definition columnPositionOf :: "store \<Rightarrow> Task \<Rightarrow> int" where
  "columnPositionOf s t = (case findColumn s (t_columnId t) of None \<Rightarrow> 0 | Some c \<Rightarrow> c_position c)"

definition tasks_query ::
  "GraphQLContext \<Rightarrow> ident \<Rightarrow> int \<Rightarrow> int \<Rightarrow> TaskStatus option \<Rightarrow> ident option \<Rightarrow> store
     \<Rightarrow> error + Task Page" where
  "tasks_query ctx projectId off lim status assigneeId s =
     (case requireProjectMember ctx projectId s of Inl e \<Rightarrow> Inl e
      | Inr u \<Rightarrow>
     (case parsePagination off lim of Inl e \<Rightarrow> Inl e
      | Inr ol \<Rightarrow>
          let rows = filter (\<lambda>t. (case findColumn s (t_columnId t) of None \<Rightarrow> False
                                      | Some col \<Rightarrow> c_projectId col = projectId)
                                 \<and> (case status of None \<Rightarrow> True | Some x \<Rightarrow> t_status t = x)
                                 \<and> (case assigneeId of None \<Rightarrow> True | Some a \<Rightarrow> t_assigneeId t = Some a))
                            (tasks s)
          in Inr (page (sort_key (\<lambda>t. (columnPositionOf s t, t_position t)) (rev rows)) ol)))"

definition comments_query ::
  "GraphQLContext \<Rightarrow> ident \<Rightarrow> int \<Rightarrow> int \<Rightarrow> store \<Rightarrow> error + Comment Page" where
  "comments_query ctx taskId off lim s =
     (case getProjectIdByTaskId s taskId of Inl e \<Rightarrow> Inl e
      | Inr projectId \<Rightarrow>
     (case requireProjectMember ctx projectId s of Inl e \<Rightarrow> Inl e
      | Inr u \<Rightarrow>
     (case parsePagination off lim of Inl e \<Rightarrow> Inl e
      | Inr ol \<Rightarrow> Inr (page (rev (filter (\<lambda>k. k_taskId k = taskId) (comments s))) ol))))"

definition activityLog_query ::
  "GraphQLContext \<Rightarrow> ident \<Rightarrow> int \<Rightarrow> int \<Rightarrow> store \<Rightarrow> error + ActivityLog Page" where
  "activityLog_query ctx projectId off lim s =
     (case requireProjectMember ctx projectId s of Inl e \<Rightarrow> Inl e
      | Inr u \<Rightarrow>
     (case parsePagination off lim of Inl e \<Rightarrow> Inl e
      | Inr ol \<Rightarrow> Inr (page (rev (filter (\<lambda>a. a_projectId a = projectId) (activity s))) ol)))"

text \<open>The field resolver \<^verbatim>\<open>Task.labels\<close>.\<close>

definition Task_labels :: "store \<Rightarrow> Task \<Rightarrow> Label list" where
  "Task_labels s t =
     (let links = map tl_labelId (filter (\<lambda>x. tl_taskId x = t_id t) (taskLabels s))
      in if length links = 0 then []
         else sort_key l_name (filter (\<lambda>l. l_id l \<in> set links) (labels s)))"

section \<open>Vocabulary of the properties\<close>

text \<open>A membership row for the pair (project, user) exists.\<close>

definition isMember :: "store \<Rightarrow> ident \<Rightarrow> ident \<Rightarrow> bool" where
  "isMember s projectId userId =
     (\<exists>m \<in> set (members s). m_projectId m = projectId \<and> m_userId m = userId)"

text \<open>The membership rows of a (project, user) pair, and the unique index
  \<^verbatim>\<open>ProjectMember_projectId_userId_key\<close>.\<close>

definition membershipRows :: "store \<Rightarrow> ident \<Rightarrow> ident \<Rightarrow> ProjectMember list" where
  "membershipRows s projectId userId =
     filter (\<lambda>m. m_projectId m = projectId \<and> m_userId m = userId) (members s)"

definition membersUnique :: "store \<Rightarrow> bool" where
  "membersUnique s = distinct (map (\<lambda>m. (m_projectId m, m_userId m)) (members s))"

text \<open>The fields of the \<^verbatim>\<open>Mutation\<close> type that write project, column or task state, the
  entity each returns, and the action tag each records. (\<open>register\<close> and \<open>login\<close> write the
  user table only and have no project to log against.)\<close>

datatype mutation =
    CreateProject string
  | CreateColumn CreateColumnInput
  | CreateTask CreateTaskInput
  | UpdateTask ident UpdateTaskInput
  | MoveTask MoveTaskInput
  | AssignTask ident "ident option"
  | CommentTask CommentTaskInput
  | InviteMember InviteMemberInput string
  | AcceptInvite string
  | CreateLabel CreateLabelInput
  | AddLabelToTask ident ident
  | RemoveLabelFromTask ident ident

datatype entity =
    AProject Project
  | AColumn Column
  | ATask Task
  | AComment Comment
  | AnInvitation Invitation
  | AMember ProjectMember
  | ALabel Label

definition returning :: "('a \<Rightarrow> entity) \<Rightarrow> (error + 'a) \<times> store \<Rightarrow> (error + entity) \<times> store" where
  "returning f out = (map_sum id f (fst out), snd out)"

fun execute :: "GraphQLContext \<Rightarrow> mutation \<Rightarrow> store \<Rightarrow> (error + entity) \<times> store" where
  "execute ctx (CreateProject name) s = returning AProject (createProject ctx name s)"
| "execute ctx (CreateColumn input) s = returning AColumn (createColumn ctx input s)"
| "execute ctx (CreateTask input) s = returning ATask (createTask ctx input s)"
| "execute ctx (UpdateTask taskId input) s = returning ATask (updateTask ctx taskId input s)"
| "execute ctx (MoveTask input) s = returning ATask (moveTask ctx input s)"
| "execute ctx (AssignTask taskId assigneeId) s = returning ATask (assignTask ctx taskId assigneeId s)"
| "execute ctx (CommentTask input) s = returning AComment (commentTask ctx input s)"
| "execute ctx (InviteMember input token) s = returning AnInvitation (inviteMember ctx input token s)"
| "execute ctx (AcceptInvite token) s = returning AMember (acceptInvite ctx token s)"
| "execute ctx (CreateLabel input) s = returning ALabel (createLabel ctx input s)"
| "execute ctx (AddLabelToTask taskId labelId) s = returning ATask (addLabelToTask ctx taskId labelId s)"
| "execute ctx (RemoveLabelFromTask taskId labelId) s =
     returning ATask (removeLabelFromTask ctx taskId labelId s)"

fun actionTag :: "mutation \<Rightarrow> string" where
  "actionTag (CreateProject name) = ''PROJECT_CREATED''"
| "actionTag (CreateColumn input) = ''COLUMN_CREATED''"
| "actionTag (CreateTask input) = ''TASK_CREATED''"
| "actionTag (UpdateTask taskId input) = ''TASK_UPDATED''"
| "actionTag (MoveTask input) = ''TASK_MOVED''"
| "actionTag (AssignTask taskId assigneeId) = ''TASK_ASSIGNED''"
| "actionTag (CommentTask input) = ''COMMENT_ADDED''"
| "actionTag (InviteMember input token) = ''MEMBER_INVITED''"
| "actionTag (AcceptInvite token) = ''INVITE_ACCEPTED''"
| "actionTag (CreateLabel input) = ''LABEL_CREATED''"
| "actionTag (AddLabelToTask taskId labelId) = ''LABEL_ADDED_TO_TASK''"
| "actionTag (RemoveLabelFromTask taskId labelId) = ''LABEL_REMOVED_FROM_TASK''"

text \<open>What a resolver's outcome did to the activity log: a success appended one entry with
  the tag and the caller as actor, a failure appended nothing.\<close>

definition logged :: "GraphQLContext \<Rightarrow> string \<Rightarrow> store \<Rightarrow> (error + 'a) \<times> store \<Rightarrow> bool" where
  "logged ctx tag s out =
     (case fst out of
        Inl e \<Rightarrow> activity (snd out) = activity s
      | Inr r \<Rightarrow> (\<exists>entry u. ctx_user ctx = Some u \<and> activity (snd out) = activity s @ [entry]
                    \<and> a_action entry = tag \<and> a_actorId entry = au_id u))"

text \<open>The positions of a scope form the run 1..count, with no gap and no duplicate.\<close>

definition contiguous :: "int list \<Rightarrow> bool" where
  "contiguous ps = (distinct ps \<and> set ps = {1..int (length ps)})"

definition columnPositions :: "store \<Rightarrow> ident \<Rightarrow> int list" where
  "columnPositions s projectId = map c_position (filter (\<lambda>c. c_projectId c = projectId) (columns s))"

definition taskPositions :: "store \<Rightarrow> ident \<Rightarrow> int list" where
  "taskPositions s columnId = map t_position (filter (\<lambda>t. t_columnId t = columnId) (tasks s))"

text \<open>The ordering invariant: the column positions of every project and the task positions of
  every column are contiguous. (A scope with no row has no positions.)\<close>

definition positionsOk :: "store \<Rightarrow> bool" where
  "positionsOk s =
     ((\<forall>p \<in> set (map c_projectId (columns s)). contiguous (columnPositions s p))
      \<and> (\<forall>c \<in> set (map t_columnId (tasks s)). contiguous (taskPositions s c)))"

text \<open>A valid store: the ordering invariant holds, task ids are unique and below the id
  counter, and every column belongs to a stored project.\<close>

definition validStore :: "store \<Rightarrow> bool" where
  "validStore s =
     (positionsOk s
      \<and> distinct (map t_id (tasks s))
      \<and> (\<forall>t \<in> set (tasks s). t_id t < nextId s)
      \<and> (\<forall>c \<in> set (columns s). projectExists s (c_projectId c)))"

text \<open>Two devices for the proofs: what the shift does to one position, and what \<open>renumber\<close>
  does to one row.\<close>

definition bump :: "int \<Rightarrow> int \<Rightarrow> int" where
  "bump P p = (if P \<le> p then p + 1 else p)"

fun relabel :: "ident list \<Rightarrow> int \<Rightarrow> Task \<Rightarrow> Task" where
  "relabel [] k t = t"
| "relabel (i # ids) k t = relabel ids (k + 1) (if t_id t = i then t\<lparr>t_position := k\<rparr> else t)"

text \<open>Sequences of calls of the ordered-collection operations, each with its own caller.
  A call is in range when it is a \<open>createColumn\<close> whose position is at most count + 1, a
  \<open>createTask\<close>, or a \<open>moveTask\<close> that stays in the task's column or whose position is at most
  the target column's count + 1; a sequence is admissible when every call is in range in
  the store it meets.\<close>

fun inRange :: "mutation \<Rightarrow> store \<Rightarrow> bool" where
  "inRange (CreateColumn input) s =
     (cci_position input \<le> int (length (columnPositions s (cci_projectId input))) + 1)"
| "inRange (CreateTask input) s = True"
| "inRange (MoveTask input) s =
     (case findTask s (mti_taskId input) of
        None \<Rightarrow> True
      | Some task \<Rightarrow>
          t_columnId task = mti_toColumnId input
          \<or> mti_toPosition input \<le> int (length (taskPositions s (mti_toColumnId input))) + 1)"
| "inRange m s = False"

fun run :: "(GraphQLContext \<times> mutation) list \<Rightarrow> store \<Rightarrow> store" where
  "run [] s = s"
| "run ((ctx, m) # calls) s = run calls (snd (execute ctx m s))"

fun admissible :: "(GraphQLContext \<times> mutation) list \<Rightarrow> store \<Rightarrow> bool" where
  "admissible [] s = True"
| "admissible ((ctx, m) # calls) s = (inRange m s \<and> admissible calls (snd (execute ctx m s)))"

section \<open>Example store\<close>

text \<open>Two projects: Alice owns project 10 (three columns, four tasks, one label, a pending
  invitation for Bob, one for Alice herself and a revoked one), Bob owns project 20 (one
  column). Root is a global administrator and a member of neither.\<close>

definition demo_store :: store where
  "demo_store = \<lparr>
     users = [\<lparr>u_id = 1, u_email = ''alice@x.com'', u_role = USER, u_displayName = ''Alice''\<rparr>,
              \<lparr>u_id = 2, u_email = ''bob@x.com'', u_role = USER, u_displayName = ''Bob''\<rparr>,
              \<lparr>u_id = 3, u_email = ''root@x.com'', u_role = ADMIN, u_displayName = ''Root''\<rparr>],
     projects = [\<lparr>p_id = 10, p_name = ''Board'', p_ownerId = 1\<rparr>,
                 \<lparr>p_id = 20, p_name = ''Other'', p_ownerId = 2\<rparr>],
     members = [\<lparr>m_id = 11, m_projectId = 10, m_userId = 1, m_projectRole = OWNER\<rparr>,
                \<lparr>m_id = 21, m_projectId = 20, m_userId = 2, m_projectRole = OWNER\<rparr>],
     columns = [\<lparr>c_id = 12, c_title = ''To Do'', c_position = 1, c_projectId = 10\<rparr>,
                \<lparr>c_id = 13, c_title = ''In Progress'', c_position = 2, c_projectId = 10\<rparr>,
                \<lparr>c_id = 14, c_title = ''Done'', c_position = 3, c_projectId = 10\<rparr>,
                \<lparr>c_id = 22, c_title = ''To Do'', c_position = 1, c_projectId = 20\<rparr>],
     tasks = [\<lparr>t_id = 15, t_title = ''A'', t_description = None, t_dueDate = None, t_position = 1,
                t_status = TODO, t_columnId = 12, t_creatorId = 1, t_assigneeId = None\<rparr>,
              \<lparr>t_id = 16, t_title = ''B'', t_description = None, t_dueDate = None, t_position = 2,
                t_status = TODO, t_columnId = 12, t_creatorId = 1, t_assigneeId = None\<rparr>,
              \<lparr>t_id = 17, t_title = ''C'', t_description = None, t_dueDate = None, t_position = 3,
                t_status = TODO, t_columnId = 12, t_creatorId = 1, t_assigneeId = None\<rparr>,
              \<lparr>t_id = 18, t_title = ''D'', t_description = None, t_dueDate = None, t_position = 1,
                t_status = TODO, t_columnId = 13, t_creatorId = 1, t_assigneeId = None\<rparr>],
     comments = [],
     labels = [\<lparr>l_id = 19, l_name = ''Bug'', l_color = None, l_projectId = 10\<rparr>],
     taskLabels = [],
     invitations = [\<lparr>i_id = 23, i_email = ''bob@x.com'', i_token = ''tok'', i_status = PENDING,
                     i_projectId = 10, i_invitedById = 1\<rparr>,
                    \<lparr>i_id = 24, i_email = ''Alice@x.com'', i_token = ''own'', i_status = PENDING,
                     i_projectId = 10, i_invitedById = 1\<rparr>,
                    \<lparr>i_id = 25, i_email = ''bob@x.com'', i_token = ''old'', i_status = REVOKED,
                     i_projectId = 10, i_invitedById = 1\<rparr>],
     activity = [],
     nextId = 30\<rparr>"

definition alice :: GraphQLContext where "alice = \<lparr>ctx_user = Some \<lparr>au_id = 1, au_role = USER\<rparr>\<rparr>"
definition bob :: GraphQLContext where "bob = \<lparr>ctx_user = Some \<lparr>au_id = 2, au_role = USER\<rparr>\<rparr>"
definition root :: GraphQLContext where "root = \<lparr>ctx_user = Some \<lparr>au_id = 3, au_role = ADMIN\<rparr>\<rparr>"
definition anonymous :: GraphQLContext where "anonymous = \<lparr>ctx_user = None\<rparr>"

definition retitle :: UpdateTaskInput where
  "retitle = \<lparr>uti_title = Given ''A2'', uti_description = Absent, uti_dueDate = Absent,
     uti_status = Absent\<rparr>"

text \<open>The example store after Bob has accepted his invitation.\<close>

definition bob_joined :: store where
  "bob_joined = demo_store\<lparr>
     members := members demo_store @
       [\<lparr>m_id = 30, m_projectId = 10, m_userId = 2, m_projectRole = MEMBER\<rparr>],
     invitations := map (\<lambda>i. if i_token i = ''tok'' then i\<lparr>i_status := ACCEPTED\<rparr> else i)
       (invitations demo_store),
     activity := [\<lparr>a_id = 31, a_action = ''INVITE_ACCEPTED'',
       a_details = JObj [(''email'', JStr ''bob@x.com'')], a_actorId = 2, a_projectId = 10,
       a_taskId = None\<rparr>],
     nextId := 32\<rparr>"

text \<open>A sequence of calls on the example store.\<close>

definition demo_calls :: "(GraphQLContext \<times> mutation) list" where
  "demo_calls =
     [(alice, CreateColumn \<lparr>cci_projectId = 10, cci_title = ''Review'', cci_position = 2\<rparr>),
      (alice, MoveTask \<lparr>mti_taskId = 15, mti_toColumnId = 13, mti_toPosition = 1\<rparr>),
      (root, CreateTask \<lparr>cti_columnId = 12, cti_title = ''E'', cti_description = None,
         cti_dueDate = None, cti_assigneeId = None\<rparr>),
      (alice, MoveTask \<lparr>mti_taskId = 16, mti_toColumnId = 12, mti_toPosition = 7\<rparr>)]"

section \<open>Properties\<close>

subsection \<open>Moves across projects\<close>

text \<open>
  Claim C5. A \<open>moveTask\<close> whose target column belongs to another project than the column the
  task is in fails with \<open>Forbidden\<close> for every caller (member, administrator or anonymous),
  and the store is left as it was.
\<close>

theorem moveTask_cross_project:
  assumes "findTask s (mti_taskId input) = Some task"
    and "findColumn s (t_columnId task) = Some src"
    and "findColumn s (mti_toColumnId input) = Some dst"
    and "c_projectId src \<noteq> c_projectId dst"
  shows "moveTask ctx input s = (Inl Forbidden, s)"
  using assms by (simp add: moveTask_def getProjectIdByTaskId_def getProjectIdByColumnId_def)

theorem moveTask_cross_project_witness:
  "moveTask alice \<lparr>mti_taskId = 15, mti_toColumnId = 22, mti_toPosition = 1\<rparr> demo_store
     = (Inl Forbidden, demo_store)
   \<and> moveTask bob \<lparr>mti_taskId = 15, mti_toColumnId = 22, mti_toPosition = 1\<rparr> demo_store
     = (Inl Forbidden, demo_store)"
proof -
  let ?inp = "\<lparr>mti_taskId = 15, mti_toColumnId = 22, mti_toPosition = 1\<rparr>"
  have a: "findTask demo_store (mti_taskId ?inp) = Some (tasks demo_store ! 0)"
    by (simp add: findTask_def demo_store_def)
  have b: "findColumn demo_store (t_columnId (tasks demo_store ! 0)) = Some (columns demo_store ! 0)"
    by (simp add: findColumn_def demo_store_def)
  have c: "findColumn demo_store (mti_toColumnId ?inp) = Some (columns demo_store ! 3)"
    by (simp add: findColumn_def demo_store_def)
  have d: "c_projectId (columns demo_store ! 0) \<noteq> c_projectId (columns demo_store ! 3)"
    by (simp add: demo_store_def)
  show ?thesis
    using moveTask_cross_project [OF a b c d] by simp
qed

subsection \<open>The membership gate\<close>

lemma findMembership_None_iff: "findMembership s p x = None \<longleftrightarrow> \<not> isMember s p x"
  by (auto simp: findMembership_def isMember_def find_None_iff)

lemma gate_ADMIN:
  "ctx_user ctx = Some u \<Longrightarrow> au_role u = ADMIN \<Longrightarrow> requireProjectMember ctx p s = Inr u"
  by (simp add: requireProjectMember_def requireAuth_def)

lemma gate_member:
  "ctx_user ctx = Some u \<Longrightarrow> au_role u \<noteq> ADMIN \<Longrightarrow> isMember s p (au_id u)
     \<Longrightarrow> requireProjectMember ctx p s = Inr u"
  using findMembership_None_iff [of s p "au_id u"]
  by (auto simp: requireProjectMember_def requireAuth_def split: option.splits)

lemma gate_outsider:
  "ctx_user ctx = Some u \<Longrightarrow> au_role u \<noteq> ADMIN \<Longrightarrow> \<not> isMember s p (au_id u)
     \<Longrightarrow> requireProjectMember ctx p s = Inl Forbidden"
  using findMembership_None_iff [of s p "au_id u"]
  by (auto simp: requireProjectMember_def requireAuth_def split: option.splits)

text \<open>
  Claim C6. For an authenticated actor, \<open>requireProjectMember\<close> passes whenever the global role
  is \<open>ADMIN\<close>, whatever the membership table holds; for any other role it passes if a
  membership row for (project, actor) exists and fails with \<open>Forbidden\<close> if none does.
  Hence every operation gated by it (the queries \<open>project\<close>, \<open>tasks\<close>, \<open>comments\<close>,
  \<open>activityLog\<close> and the mutations \<open>createTask\<close>, \<open>updateTask\<close>, \<open>moveTask\<close>,
  \<open>assignTask\<close>, \<open>commentTask\<close>, \<open>addLabelToTask\<close>, \<open>removeLabelFromTask\<close>), once its
  resource resolves to the project, answers \<open>Forbidden\<close> to a non-administrator who is not a
  member, and leaves the store as it was.
\<close>

theorem requireProjectMember_gate:
  assumes "ctx_user ctx = Some u"
  shows "(au_role u = ADMIN \<longrightarrow> requireProjectMember ctx p s = Inr u)
    \<and> (au_role u \<noteq> ADMIN \<longrightarrow>
         requireProjectMember ctx p s = (if isMember s p (au_id u) then Inr u else Inl Forbidden))
    \<and> (au_role u \<noteq> ADMIN \<and> \<not> isMember s p (au_id u) \<longrightarrow>
         project_query ctx p s = Inl Forbidden
       \<and> tasks_query ctx p off lim st asg s = Inl Forbidden
       \<and> activityLog_query ctx p off lim s = Inl Forbidden
       \<and> (getProjectIdByColumnId s (cti_columnId cin) = Inr p \<longrightarrow>
            createTask ctx cin s = (Inl Forbidden, s))
       \<and> (getProjectIdByTaskId s tid = Inr p \<longrightarrow>
            comments_query ctx tid off lim s = Inl Forbidden
          \<and> updateTask ctx tid uin s = (Inl Forbidden, s)
          \<and> assignTask ctx tid asg s = (Inl Forbidden, s)
          \<and> commentTask ctx \<lparr>cmi_taskId = tid, cmi_content = txt\<rparr> s = (Inl Forbidden, s)
          \<and> addLabelToTask ctx tid lid s = (Inl Forbidden, s)
          \<and> removeLabelFromTask ctx tid lid s = (Inl Forbidden, s)
          \<and> (getProjectIdByColumnId s col = Inr q \<longrightarrow>
               moveTask ctx \<lparr>mti_taskId = tid, mti_toColumnId = col, mti_toPosition = pos\<rparr> s
                 = (Inl Forbidden, s))))"
proof (intro conjI impI)
  show "au_role u = ADMIN \<Longrightarrow> requireProjectMember ctx p s = Inr u"
    using assms by (rule gate_ADMIN)
next
  assume "au_role u \<noteq> ADMIN"
  then show "requireProjectMember ctx p s = (if isMember s p (au_id u) then Inr u else Inl Forbidden)"
    using assms gate_member gate_outsider by simp
next
  assume "au_role u \<noteq> ADMIN \<and> \<not> isMember s p (au_id u)"
  then have g: "requireProjectMember ctx p s = Inl Forbidden"
    using assms gate_outsider by simp
  have a: "requireAuth ctx = Inr u" using assms by (simp add: requireAuth_def)
  show "project_query ctx p s = Inl Forbidden" by (simp add: project_query_def g)
  show "tasks_query ctx p off lim st asg s = Inl Forbidden" by (simp add: tasks_query_def g)
  show "activityLog_query ctx p off lim s = Inl Forbidden" by (simp add: activityLog_query_def g)
  show "createTask ctx cin s = (Inl Forbidden, s)" if "getProjectIdByColumnId s (cti_columnId cin) = Inr p"
    using that by (simp add: createTask_def g)
  {
    assume r: "getProjectIdByTaskId s tid = Inr p"
    show "comments_query ctx tid off lim s = Inl Forbidden" by (simp add: comments_query_def g r)
    show "updateTask ctx tid uin s = (Inl Forbidden, s)" by (simp add: updateTask_def g r)
    show "assignTask ctx tid asg s = (Inl Forbidden, s)" by (simp add: assignTask_def g r)
    show "commentTask ctx \<lparr>cmi_taskId = tid, cmi_content = txt\<rparr> s = (Inl Forbidden, s)"
      by (simp add: commentTask_def g r a)
    show "addLabelToTask ctx tid lid s = (Inl Forbidden, s)" by (simp add: addLabelToTask_def g r)
    show "removeLabelFromTask ctx tid lid s = (Inl Forbidden, s)"
      by (simp add: removeLabelFromTask_def g r)
    show "moveTask ctx \<lparr>mti_taskId = tid, mti_toColumnId = col, mti_toPosition = pos\<rparr> s
            = (Inl Forbidden, s)" if "getProjectIdByColumnId s col = Inr q"
      using that g by (auto simp: moveTask_def r)
  }
qed

theorem requireProjectMember_gate_witness:
  "requireProjectMember root 10 demo_store = Inr \<lparr>au_id = 3, au_role = ADMIN\<rparr>
   \<and> requireProjectMember alice 10 demo_store = Inr \<lparr>au_id = 1, au_role = USER\<rparr>
   \<and> requireProjectMember bob 10 demo_store = Inl Forbidden
   \<and> project_query bob 10 demo_store = Inl Forbidden
   \<and> createTask bob \<lparr>cti_columnId = 13, cti_title = ''T'', cti_description = None,
        cti_dueDate = None, cti_assigneeId = None\<rparr> demo_store = (Inl Forbidden, demo_store)
   \<and> updateTask bob 15 retitle demo_store = (Inl Forbidden, demo_store)
   \<and> moveTask bob \<lparr>mti_taskId = 15, mti_toColumnId = 13, mti_toPosition = 1\<rparr> demo_store
       = (Inl Forbidden, demo_store)"
proof -
  let ?cin = "\<lparr>cti_columnId = 13, cti_title = ''T'', cti_description = None,
        cti_dueDate = None, cti_assigneeId = None\<rparr>"
  have r: "ctx_user root = Some \<lparr>au_id = 3, au_role = ADMIN\<rparr>" by (simp add: root_def)
  have a: "ctx_user alice = Some \<lparr>au_id = 1, au_role = USER\<rparr>" by (simp add: alice_def)
  have b: "ctx_user bob = Some \<lparr>au_id = 2, au_role = USER\<rparr>" by (simp add: bob_def)
  have ma: "isMember demo_store 10 1" by (simp add: isMember_def demo_store_def)
  have mb: "\<not> isMember demo_store 10 2" by (simp add: isMember_def demo_store_def)
  have t: "getProjectIdByTaskId demo_store 15 = Inr 10"
    by (simp add: getProjectIdByTaskId_def findTask_def findColumn_def demo_store_def)
  have c: "getProjectIdByColumnId demo_store 13 = Inr 10"
    by (simp add: getProjectIdByColumnId_def findColumn_def demo_store_def)
  show ?thesis
    using requireProjectMember_gate [OF r, of 10 demo_store]
      requireProjectMember_gate [OF a, of 10 demo_store]
      requireProjectMember_gate [OF b, of 10 demo_store _ _ _ _ ?cin 15 retitle _ _ 13 10 1] ma mb t c
    by simp
qed

subsection \<open>Unknown identifiers\<close>

lemma unknown_task: "findTask s tid = None \<Longrightarrow> getProjectIdByTaskId s tid = Inl NotFound"
  by (simp add: getProjectIdByTaskId_def)

lemma unknown_column: "findColumn s cid = None \<Longrightarrow> getProjectIdByColumnId s cid = Inl NotFound"
  by (simp add: getProjectIdByColumnId_def)

text \<open>
  Claim C7, as amended. An operation that takes a task id resolves it before it evaluates any
  guard, and an id that matches no task yields \<open>NotFound\<close> for every caller, anonymous
  callers and non-members included: this holds of \<open>comments\<close>, \<open>updateTask\<close>, \<open>assignTask\<close>,
  \<open>addLabelToTask\<close>, \<open>removeLabelFromTask\<close> and \<open>moveTask\<close>. The same holds of a column
  id that matches no column, in \<open>createTask\<close> and (once the task resolves) in \<open>moveTask\<close>.
  \<open>commentTask\<close> is the exception: it requires authentication first, so an anonymous caller
  receives \<open>Unauthenticated\<close>, and every authenticated caller receives \<open>NotFound\<close> before
  the membership check. No such call changes the store.
\<close>

theorem unknown_id_NotFound:
  "(findTask s tid = None \<longrightarrow>
       comments_query ctx tid off lim s = Inl NotFound
     \<and> updateTask ctx tid uin s = (Inl NotFound, s)
     \<and> assignTask ctx tid asg s = (Inl NotFound, s)
     \<and> addLabelToTask ctx tid lid s = (Inl NotFound, s)
     \<and> removeLabelFromTask ctx tid lid s = (Inl NotFound, s)
     \<and> moveTask ctx \<lparr>mti_taskId = tid, mti_toColumnId = col, mti_toPosition = pos\<rparr> s
          = (Inl NotFound, s)
     \<and> commentTask ctx \<lparr>cmi_taskId = tid, cmi_content = txt\<rparr> s
          = (if ctx_user ctx = None then (Inl Unauthenticated, s) else (Inl NotFound, s)))
   \<and> (findColumn s cid = None \<longrightarrow>
       createTask ctx (cin\<lparr>cti_columnId := cid\<rparr>) s = (Inl NotFound, s)
     \<and> (getProjectIdByTaskId s tid' = Inr p \<longrightarrow>
          moveTask ctx \<lparr>mti_taskId = tid', mti_toColumnId = cid, mti_toPosition = pos\<rparr> s
            = (Inl NotFound, s)))"
proof (intro conjI impI)
  assume "findTask s tid = None"
  then have r: "getProjectIdByTaskId s tid = Inl NotFound" by (rule unknown_task)
  show "comments_query ctx tid off lim s = Inl NotFound" by (simp add: comments_query_def r)
  show "updateTask ctx tid uin s = (Inl NotFound, s)" by (simp add: updateTask_def r)
  show "assignTask ctx tid asg s = (Inl NotFound, s)" by (simp add: assignTask_def r)
  show "addLabelToTask ctx tid lid s = (Inl NotFound, s)" by (simp add: addLabelToTask_def r)
  show "removeLabelFromTask ctx tid lid s = (Inl NotFound, s)"
    by (simp add: removeLabelFromTask_def r)
  show "moveTask ctx \<lparr>mti_taskId = tid, mti_toColumnId = col, mti_toPosition = pos\<rparr> s
          = (Inl NotFound, s)"
    by (simp add: moveTask_def r)
  show "commentTask ctx \<lparr>cmi_taskId = tid, cmi_content = txt\<rparr> s
          = (if ctx_user ctx = None then (Inl Unauthenticated, s) else (Inl NotFound, s))"
    by (auto simp: commentTask_def requireAuth_def r split: option.splits)
next
  assume "findColumn s cid = None"
  then have r: "getProjectIdByColumnId s cid = Inl NotFound" by (rule unknown_column)
  show "createTask ctx (cin\<lparr>cti_columnId := cid\<rparr>) s = (Inl NotFound, s)"
    by (simp add: createTask_def r)
  show "moveTask ctx \<lparr>mti_taskId = tid', mti_toColumnId = cid, mti_toPosition = pos\<rparr> s
          = (Inl NotFound, s)" if "getProjectIdByTaskId s tid' = Inr p"
    using that by (simp add: moveTask_def r)
qed

theorem unknown_id_NotFound_witness:
  "updateTask anonymous 99 retitle demo_store = (Inl NotFound, demo_store)
   \<and> commentTask bob \<lparr>cmi_taskId = 99, cmi_content = ''y''\<rparr> demo_store = (Inl NotFound, demo_store)
   \<and> createTask anonymous \<lparr>cti_columnId = 99, cti_title = ''T'', cti_description = None,
        cti_dueDate = None, cti_assigneeId = None\<rparr> demo_store = (Inl NotFound, demo_store)
   \<and> moveTask anonymous \<lparr>mti_taskId = 15, mti_toColumnId = 99, mti_toPosition = 1\<rparr> demo_store
        = (Inl NotFound, demo_store)"
proof -
  have t: "findTask demo_store 99 = None" by (simp add: findTask_def demo_store_def)
  have c: "findColumn demo_store 99 = None" by (simp add: findColumn_def demo_store_def)
  have b: "ctx_user bob \<noteq> None" by (simp add: bob_def)
  have p: "getProjectIdByTaskId demo_store 15 = Inr 10"
    by (simp add: getProjectIdByTaskId_def findTask_def findColumn_def demo_store_def)
  let ?cin = "\<lparr>cti_columnId = 0, cti_title = ''T'', cti_description = None,
        cti_dueDate = None, cti_assigneeId = None\<rparr>"
  show ?thesis
    using unknown_id_NotFound [of demo_store 99 anonymous _ _ retitle _ _ _ _ _ 99 ?cin 15 10]
      unknown_id_NotFound [of demo_store 99 bob _ _ _ _ _ _ _ "''y''" 99 ?cin 15 10] t c b p
    by simp
qed

text \<open>
  The claim as first stated, uniform over all operations, fails at \<open>commentTask\<close>: called
  without credentials on an id that matches no task it answers \<open>Unauthenticated\<close>.
\<close>

theorem commentTask_unknown_id_unauthenticated:
  "findTask demo_store 99 = None
   \<and> commentTask anonymous \<lparr>cmi_taskId = 99, cmi_content = ''y''\<rparr> demo_store
       = (Inl Unauthenticated, demo_store)"
  by (simp add: findTask_def demo_store_def commentTask_def requireAuth_def anonymous_def)

subsection \<open>Validation of positions\<close>

lemma createColumn_below_one:
  "cci_position cin < 1 \<Longrightarrow> \<exists>e. createColumn ctx cin s = (Inl e, s)"
  by (simp add: createColumn_def split: sum.splits)

lemma moveTask_below_one:
  "mti_toPosition mv < 1 \<Longrightarrow> \<exists>e. moveTask ctx mv s = (Inl e, s)"
  by (simp add: moveTask_def split: sum.splits)

lemma createColumn_BadInput_iff:
  assumes "requireProjectOwnerOrAdmin ctx (cci_projectId cin) s = Inr u" and "trim (cci_title cin) \<noteq> []"
  shows "fst (createColumn ctx cin s) = Inl BadInput \<longleftrightarrow> cci_position cin < 1"
  using assms
  by (auto simp: createColumn_def Let_def activityLog_create_def split: option.splits if_splits)

lemma moveTask_BadInput_iff:
  assumes "getProjectIdByTaskId s (mti_taskId mv) = Inr p"
    and "getProjectIdByColumnId s (mti_toColumnId mv) = Inr p"
    and "requireProjectMember ctx p s = Inr u"
  shows "fst (moveTask ctx mv s) = Inl BadInput \<longleftrightarrow> mti_toPosition mv < 1"
proof -
  obtain task where "findTask s (mti_taskId mv) = Some task"
    using assms(1) by (auto simp: getProjectIdByTaskId_def split: option.splits)
  then show ?thesis using assms
    by (auto simp: moveTask_def Let_def activityLog_create_def split: option.splits if_splits)
qed

text \<open>
  Claim C3, as amended. \<open>createColumn\<close> and \<open>moveTask\<close> check the lower bound of the
  position only. A call with a position below 1 always fails and leaves the store as it was,
  and once the guards that precede the check pass (for \<open>createColumn\<close> the owner-or-admin
  guard and a non-empty title, for \<open>moveTask\<close> the resolution of task and column to one
  project and the membership gate) the call fails with \<open>BadInput\<close> exactly when the
  position is below 1. A position above count + 1 is not rejected.
\<close>

theorem position_lower_bound:
  "(cci_position cin < 1 \<longrightarrow> (\<exists>e. createColumn ctx cin s = (Inl e, s)))
   \<and> (requireProjectOwnerOrAdmin ctx (cci_projectId cin) s = Inr u \<and> trim (cci_title cin) \<noteq> [] \<longrightarrow>
        (fst (createColumn ctx cin s) = Inl BadInput \<longleftrightarrow> cci_position cin < 1))
   \<and> (mti_toPosition mv < 1 \<longrightarrow> (\<exists>e. moveTask ctx mv s = (Inl e, s)))
   \<and> (getProjectIdByTaskId s (mti_taskId mv) = Inr p
        \<and> getProjectIdByColumnId s (mti_toColumnId mv) = Inr p
        \<and> requireProjectMember ctx p s = Inr v \<longrightarrow>
        (fst (moveTask ctx mv s) = Inl BadInput \<longleftrightarrow> mti_toPosition mv < 1))"
  using createColumn_below_one createColumn_BadInput_iff moveTask_below_one moveTask_BadInput_iff
  by blast

lemma trim_X: "trim ''X'' = ''X''"
  by (simp add: trim_def is_space_def)

theorem position_lower_bound_witness:
  "createColumn alice \<lparr>cci_projectId = 10, cci_title = ''X'', cci_position = 0\<rparr> demo_store
     = (Inl BadInput, demo_store)
   \<and> moveTask alice \<lparr>mti_taskId = 15, mti_toColumnId = 13, mti_toPosition = 0\<rparr> demo_store
     = (Inl BadInput, demo_store)"
proof -
  let ?cin = "\<lparr>cci_projectId = 10, cci_title = ''X'', cci_position = 0\<rparr>"
  let ?mv = "\<lparr>mti_taskId = 15, mti_toColumnId = 13, mti_toPosition = 0\<rparr>"
  have g: "requireProjectOwnerOrAdmin alice (cci_projectId ?cin) demo_store = Inr \<lparr>au_id = 1, au_role = USER\<rparr>"
    by (simp add: requireProjectOwnerOrAdmin_def requireAuth_def findMembership_def alice_def
        demo_store_def)
  have t: "trim (cci_title ?cin) \<noteq> []" by (simp add: trim_X)
  have p: "getProjectIdByTaskId demo_store (mti_taskId ?mv) = Inr 10"
    by (simp add: getProjectIdByTaskId_def findTask_def findColumn_def demo_store_def)
  have c: "getProjectIdByColumnId demo_store (mti_toColumnId ?mv) = Inr 10"
    by (simp add: getProjectIdByColumnId_def findColumn_def demo_store_def)
  have m: "requireProjectMember alice 10 demo_store = Inr \<lparr>au_id = 1, au_role = USER\<rparr>"
    by (simp add: requireProjectMember_def requireAuth_def findMembership_def alice_def
        demo_store_def)
  have lo: "cci_position ?cin < 1" "mti_toPosition ?mv < 1" by simp_all
  from position_lower_bound [of ?cin alice demo_store "\<lparr>au_id = 1, au_role = USER\<rparr>" ?mv 10
      "\<lparr>au_id = 1, au_role = USER\<rparr>"] g t p c m lo
  have "(\<exists>e. createColumn alice ?cin demo_store = (Inl e, demo_store))
      \<and> fst (createColumn alice ?cin demo_store) = Inl BadInput
      \<and> (\<exists>e. moveTask alice ?mv demo_store = (Inl e, demo_store))
      \<and> fst (moveTask alice ?mv demo_store) = Inl BadInput"
    by blast
  then show ?thesis by auto
qed

text \<open>
  The claim as first stated fails at the upper bound: project 10 has three columns and
  \<open>createColumn\<close> at position 5 succeeds, leaving positions 1, 2, 3, 5; column 13 has one
  task and \<open>moveTask\<close> to position 5 of it succeeds, leaving positions 5 and 1 there.
\<close>

theorem position_beyond_tail_accepted:
  "length (filter (\<lambda>c. c_projectId c = 10) (columns demo_store)) = 3
   \<and> fst (createColumn alice \<lparr>cci_projectId = 10, cci_title = ''X'', cci_position = 5\<rparr> demo_store)
       = Inr \<lparr>c_id = 30, c_title = ''X'', c_position = 5, c_projectId = 10\<rparr>
   \<and> map c_position (filter (\<lambda>c. c_projectId c = 10)
        (columns (snd (createColumn alice \<lparr>cci_projectId = 10, cci_title = ''X'', cci_position = 5\<rparr>
           demo_store)))) = [1, 2, 3, 5]
   \<and> length (filter (\<lambda>t. t_columnId t = 13) (tasks demo_store)) = 1
   \<and> fst (moveTask alice \<lparr>mti_taskId = 15, mti_toColumnId = 13, mti_toPosition = 5\<rparr> demo_store)
       = Inr ((tasks demo_store ! 0)\<lparr>t_columnId := 13, t_position := 5\<rparr>)
   \<and> map (\<lambda>t. (t_id t, t_columnId t, t_position t))
        (tasks (snd (moveTask alice \<lparr>mti_taskId = 15, mti_toColumnId = 13, mti_toPosition = 5\<rparr>
           demo_store)))
       = [(15, 13, 5), (16, 12, 1), (17, 12, 2), (18, 13, 1)]"
  by (simp add: createColumn_def requireProjectOwnerOrAdmin_def findMembership_def
      trim_X shiftColumns_def projectExists_def
      moveTask_def getProjectIdByTaskId_def getProjectIdByColumnId_def findTask_def
      findColumn_def requireProjectMember_def requireAuth_def
      alice_def demo_store_def shiftTasks_def placeTask_def sourceTasks_def setPosition_def
      activityLog_create_def userExists_def Let_def)

subsection \<open>Accepting invitations\<close>

lemma filter_key_le_one:
  "distinct (map key xs) \<Longrightarrow> length (filter (\<lambda>x. key x = k) xs) \<le> 1"
proof (induction xs)
  case Nil
  then show ?case by simp
next
  case (Cons x xs)
  show ?case
  proof (cases "key x = k")
    case True
    with Cons.prems have "k \<notin> key ` set xs" by auto
    then have "filter (\<lambda>x. key x = k) xs = []" by (auto simp: filter_empty_conv)
    with True show ?thesis by simp
  next
    case False
    with Cons show ?thesis by simp
  qed
qed

lemma membershipRows_le_one: "membersUnique s \<Longrightarrow> length (membershipRows s p x) \<le> 1"
  using filter_key_le_one [of "\<lambda>m. (m_projectId m, m_userId m)" "members s" "(p, x)"]
  by (simp add: membersUnique_def membershipRows_def)

lemma upsertMembership_rows:
  assumes "membersUnique s" and "upsertMembership p x s = (m, s1)"
  shows "length (membershipRows s1 p x) = 1 \<and> m_projectId m = p \<and> m_userId m = x"
proof (cases "findMembership s p x")
  case None
  then have "membershipRows s p x = []"
    by (auto simp: findMembership_def membershipRows_def find_None_iff filter_empty_conv)
  with None assms(2) show ?thesis
    by (auto simp: upsertMembership_def membershipRows_def Let_def)
next
  case (Some r)
  then have "r \<in> set (membershipRows s p x)"
    by (auto simp: findMembership_def membershipRows_def find_Some_iff)
  then have "0 < length (membershipRows s p x)" by (cases "membershipRows s p x") auto
  then have one: "length (membershipRows s p x) = 1"
    using membershipRows_le_one [OF assms(1), of p x] by linarith
  have "m = r \<and> s1 = s" using Some assms(2) by (simp add: upsertMembership_def)
  moreover have "m_projectId r = p \<and> m_userId r = x"
    using Some by (auto simp: findMembership_def find_Some_iff)
  ultimately show ?thesis using one by simp
qed

lemma find_after_accept:
  "find (\<lambda>i. i_token i = token) xs = Some invite \<Longrightarrow>
   find (\<lambda>i. i_token i = token) (map (\<lambda>i. if i_token i = token then i\<lparr>i_status := ACCEPTED\<rparr> else i) xs)
     = Some (invite\<lparr>i_status := ACCEPTED\<rparr>)"
  by (induction xs) (auto split: if_splits)

lemma acceptInvite_not_pending:
  assumes "ctx_user ctx = Some u" and "find (\<lambda>i. i_token i = token) (invitations s) = Some invite"
    and "i_status invite \<noteq> PENDING"
  shows "acceptInvite ctx token s = (Inl BadInput, s)"
  using assms by (simp add: acceptInvite_def requireAuth_def)

lemma acceptInvite_success:
  assumes "acceptInvite ctx token s = (Inr m, s')"
  obtains u invite usr s1 where "ctx_user ctx = Some u"
    and "find (\<lambda>i. i_token i = token) (invitations s) = Some invite"
    and "i_status invite = PENDING"
    and "find (\<lambda>x. u_id x = au_id u) (users s) = Some usr"
    and "toLowerCase (u_email usr) = toLowerCase (i_email invite) \<or> au_role u = ADMIN"
    and "upsertMembership (i_projectId invite) (au_id u) s = (m, s1)"
    and "s' = s1\<lparr>invitations := map (\<lambda>i. if i_token i = token then i\<lparr>i_status := ACCEPTED\<rparr> else i)
                                   (invitations s1),
               activity := activity s1 @
                 [\<lparr>a_id = nextId s1, a_action = ''INVITE_ACCEPTED'',
                   a_details = JObj [(''email'', JStr (i_email invite))], a_actorId = au_id u,
                   a_projectId = i_projectId invite, a_taskId = None\<rparr>],
               nextId := Suc (nextId s1)\<rparr>"
  using assms
  by (auto simp: acceptInvite_def requireAuth_def activityLog_create_def Let_def
      split: option.splits if_splits prod.splits)

lemma upsertMembership_frame:
  "upsertMembership p x s = (m, s1) \<Longrightarrow>
     invitations s1 = invitations s \<and> users s1 = users s \<and> activity s1 = activity s
     \<and> projects s1 = projects s \<and> columns s1 = columns s \<and> tasks s1 = tasks s
     \<and> comments s1 = comments s \<and> labels s1 = labels s \<and> taskLabels s1 = taskLabels s"
  by (auto simp: upsertMembership_def Let_def split: option.splits)

text \<open>
  Claim C8. In a store that keeps at most one membership row per (project, user), after an
  authenticated user's successful \<open>acceptInvite\<close> of a token exactly one membership row
  exists for the invitation's project and that user, and a second \<open>acceptInvite\<close> of the
  same token fails with \<open>BadInput\<close> and leaves the store as it was. For an authenticated
  caller, \<open>acceptInvite\<close> of an invitation that is \<open>ACCEPTED\<close> or \<open>REVOKED\<close> fails with
  \<open>BadInput\<close>; for any caller it fails and changes nothing.
\<close>

theorem acceptInvite_once:
  "(membersUnique s \<and> ctx_user ctx = Some u
      \<and> find (\<lambda>i. i_token i = token) (invitations s) = Some invite
      \<and> acceptInvite ctx token s = (Inr m, s') \<longrightarrow>
       length (membershipRows s' (i_projectId invite) (au_id u)) = 1
     \<and> acceptInvite ctx token s' = (Inl BadInput, s'))
   \<and> (ctx_user ctx = Some u \<and> find (\<lambda>i. i_token i = token) (invitations s) = Some invite
        \<and> (i_status invite = ACCEPTED \<or> i_status invite = REVOKED) \<longrightarrow>
       acceptInvite ctx token s = (Inl BadInput, s))
   \<and> (find (\<lambda>i. i_token i = token) (invitations s) = Some invite
        \<and> (i_status invite = ACCEPTED \<or> i_status invite = REVOKED) \<longrightarrow>
       (\<exists>e. acceptInvite ctx token s = (Inl e, s)))"
proof (intro conjI impI)
  assume h: "membersUnique s \<and> ctx_user ctx = Some u
      \<and> find (\<lambda>i. i_token i = token) (invitations s) = Some invite
      \<and> acceptInvite ctx token s = (Inr m, s')"
  then have u: "ctx_user ctx = Some u"
    and f: "find (\<lambda>i. i_token i = token) (invitations s) = Some invite"
    and acc: "acceptInvite ctx token s = (Inr m, s')"
    by simp_all
  from acc u f obtain s1 where up: "upsertMembership (i_projectId invite) (au_id u) s = (m, s1)"
    and s': "s' = s1\<lparr>invitations := map (\<lambda>i. if i_token i = token then i\<lparr>i_status := ACCEPTED\<rparr> else i)
                                   (invitations s1),
               activity := activity s1 @
                 [\<lparr>a_id = nextId s1, a_action = ''INVITE_ACCEPTED'',
                   a_details = JObj [(''email'', JStr (i_email invite))], a_actorId = au_id u,
                   a_projectId = i_projectId invite, a_taskId = None\<rparr>],
               nextId := Suc (nextId s1)\<rparr>"
    by (auto elim!: acceptInvite_success)
  have rows: "length (membershipRows s1 (i_projectId invite) (au_id u)) = 1"
    using upsertMembership_rows h up by blast
  then show "length (membershipRows s' (i_projectId invite) (au_id u)) = 1"
    by (simp add: s' membershipRows_def)
  have "find (\<lambda>i. i_token i = token) (invitations s') = Some (invite\<lparr>i_status := ACCEPTED\<rparr>)"
    using find_after_accept [OF f] upsertMembership_frame [OF up] by (simp add: s')
  then show "acceptInvite ctx token s' = (Inl BadInput, s')"
    using acceptInvite_not_pending [OF u, of token s'] by simp
next
  assume "ctx_user ctx = Some u \<and> find (\<lambda>i. i_token i = token) (invitations s) = Some invite
        \<and> (i_status invite = ACCEPTED \<or> i_status invite = REVOKED)"
  then show "acceptInvite ctx token s = (Inl BadInput, s)"
    using acceptInvite_not_pending [of ctx u token s invite] by auto
next
  assume "find (\<lambda>i. i_token i = token) (invitations s) = Some invite
        \<and> (i_status invite = ACCEPTED \<or> i_status invite = REVOKED)"
  then show "\<exists>e. acceptInvite ctx token s = (Inl e, s)"
    by (auto simp: acceptInvite_def split: sum.splits)
qed

lemma lower_bob: "toLowerCase ''bob@x.com'' = ''bob@x.com''"
  by (simp add: toLowerCase_def lower_char_def)

lemma lower_alice: "toLowerCase ''Alice@x.com'' = ''alice@x.com''" "toLowerCase ''alice@x.com'' = ''alice@x.com''"
  by code_simp+

lemma bob_accepts:
  "acceptInvite bob ''tok'' demo_store
     = (Inr \<lparr>m_id = 30, m_projectId = 10, m_userId = 2, m_projectRole = MEMBER\<rparr>, bob_joined)"
  by (simp add: acceptInvite_def requireAuth_def bob_def demo_store_def lower_bob
      upsertMembership_def findMembership_def activityLog_create_def userExists_def Let_def
      bob_joined_def)

theorem acceptInvite_once_witness:
  "acceptInvite bob ''tok'' demo_store
     = (Inr \<lparr>m_id = 30, m_projectId = 10, m_userId = 2, m_projectRole = MEMBER\<rparr>, bob_joined)
   \<and> length (membershipRows bob_joined 10 2) = 1
   \<and> acceptInvite bob ''tok'' bob_joined = (Inl BadInput, bob_joined)
   \<and> acceptInvite bob ''old'' demo_store = (Inl BadInput, demo_store)"
proof -
  have u: "membersUnique demo_store" by (simp add: membersUnique_def demo_store_def)
  have b: "ctx_user bob = Some \<lparr>au_id = 2, au_role = USER\<rparr>" by (simp add: bob_def)
  have f: "find (\<lambda>i. i_token i = ''tok'') (invitations demo_store) = Some (invitations demo_store ! 0)"
    by (simp add: demo_store_def)
  have g: "find (\<lambda>i. i_token i = ''old'') (invitations demo_store) = Some (invitations demo_store ! 2)"
    by (simp add: demo_store_def)
  have p: "i_projectId (invitations demo_store ! 0) = 10" "i_status (invitations demo_store ! 2) = REVOKED"
    by (simp_all add: demo_store_def)
  show ?thesis
    using acceptInvite_once [of demo_store bob "\<lparr>au_id = 2, au_role = USER\<rparr>" "''tok''"
        "invitations demo_store ! 0" _ bob_joined]
      acceptInvite_once [of demo_store bob "\<lparr>au_id = 2, au_role = USER\<rparr>" "''old''"
        "invitations demo_store ! 2"]
      u b f g p bob_accepts
    by simp
qed

text \<open>
  Claim C9. When the actor of a successful \<open>acceptInvite\<close> already has a membership row in
  the invitation's project, that row is returned as it is and the membership table is
  unchanged, so an \<open>OWNER\<close> stays \<open>OWNER\<close>. The invitations with the token have their status
  set to \<open>ACCEPTED\<close> and keep every other field, one \<open>INVITE_ACCEPTED\<close> entry of the actor
  is appended to the activity log, and all other tables are unchanged.
\<close>

theorem acceptInvite_existing_member:
  assumes "ctx_user ctx = Some u"
    and "find (\<lambda>i. i_token i = token) (invitations s) = Some invite"
    and "findMembership s (i_projectId invite) (au_id u) = Some row"
    and "acceptInvite ctx token s = (Inr m, s')"
  shows "m = row \<and> members s' = members s
    \<and> invitations s' = map (\<lambda>i. if i_token i = token then i\<lparr>i_status := ACCEPTED\<rparr> else i)
                          (invitations s)
    \<and> (\<exists>entry. activity s' = activity s @ [entry] \<and> a_action entry = ''INVITE_ACCEPTED''
          \<and> a_actorId entry = au_id u \<and> a_projectId entry = i_projectId invite)
    \<and> users s' = users s \<and> projects s' = projects s \<and> columns s' = columns s
    \<and> tasks s' = tasks s \<and> comments s' = comments s \<and> labels s' = labels s
    \<and> taskLabels s' = taskLabels s"
proof -
  from assms(4,1,2) obtain s1 where up: "upsertMembership (i_projectId invite) (au_id u) s = (m, s1)"
    and s': "s' = s1\<lparr>invitations := map (\<lambda>i. if i_token i = token then i\<lparr>i_status := ACCEPTED\<rparr> else i)
                                   (invitations s1),
               activity := activity s1 @
                 [\<lparr>a_id = nextId s1, a_action = ''INVITE_ACCEPTED'',
                   a_details = JObj [(''email'', JStr (i_email invite))], a_actorId = au_id u,
                   a_projectId = i_projectId invite, a_taskId = None\<rparr>],
               nextId := Suc (nextId s1)\<rparr>"
    by (auto elim!: acceptInvite_success)
  have "m = row \<and> s1 = s" using up assms(3) by (simp add: upsertMembership_def)
  then show ?thesis by (simp add: s')
qed

theorem acceptInvite_existing_member_witness:
  "fst (acceptInvite alice ''own'' demo_store)
     = Inr \<lparr>m_id = 11, m_projectId = 10, m_userId = 1, m_projectRole = OWNER\<rparr>
   \<and> members (snd (acceptInvite alice ''own'' demo_store)) = members demo_store
   \<and> map i_status (invitations (snd (acceptInvite alice ''own'' demo_store)))
       = [PENDING, ACCEPTED, REVOKED]"
proof -
  let ?s' = "snd (acceptInvite alice ''own'' demo_store)"
  have a: "ctx_user alice = Some \<lparr>au_id = 1, au_role = USER\<rparr>" by (simp add: alice_def)
  have f: "find (\<lambda>i. i_token i = ''own'') (invitations demo_store) = Some (invitations demo_store ! 1)"
    by (simp add: demo_store_def)
  have r: "findMembership demo_store (i_projectId (invitations demo_store ! 1))
             (au_id \<lparr>au_id = 1, au_role = USER\<rparr>) = Some (members demo_store ! 0)"
    by (simp add: findMembership_def demo_store_def)
  have fc: "fst (acceptInvite alice ''own'' demo_store) = Inr (members demo_store ! 0)"
    by (simp add: acceptInvite_def requireAuth_def alice_def demo_store_def lower_alice
      upsertMembership_def findMembership_def activityLog_create_def userExists_def Let_def)
  from fc have c: "acceptInvite alice ''own'' demo_store = (Inr (members demo_store ! 0), ?s')"
    by (simp add: prod_eq_iff)
  have i: "invitations ?s' = map (\<lambda>i. if i_token i = ''own'' then i\<lparr>i_status := ACCEPTED\<rparr> else i)
                          (invitations demo_store)"
    and m: "members ?s' = members demo_store"
    using acceptInvite_existing_member [OF a f r c] by simp_all
  have i': "map i_status (map (\<lambda>i. if i_token i = ''own'' then i\<lparr>i_status := ACCEPTED\<rparr> else i)
                          (invitations demo_store)) = [PENDING, ACCEPTED, REVOKED]"
    by (simp add: demo_store_def)
  have m0: "members demo_store ! 0 = \<lparr>m_id = 11, m_projectId = 10, m_userId = 1, m_projectRole = OWNER\<rparr>"
    by (simp add: demo_store_def)
  show ?thesis
    unfolding i m fc i' m0 by simp
qed

subsection \<open>Attaching labels\<close>

lemma getProjectIdByTaskId_frame:
  "tasks s' = tasks s \<Longrightarrow> columns s' = columns s \<Longrightarrow>
     getProjectIdByTaskId s' tid = getProjectIdByTaskId s tid"
  by (simp add: getProjectIdByTaskId_def findTask_def findColumn_def cong: option.case_cong)

lemma requireProjectMember_frame:
  "members s' = members s \<Longrightarrow> requireProjectMember ctx p s' = requireProjectMember ctx p s"
  by (auto simp: requireProjectMember_def findMembership_def split: sum.splits)

lemma upsertTaskLabel_frame:
  "tasks (upsertTaskLabel t l s) = tasks s \<and> columns (upsertTaskLabel t l s) = columns s
   \<and> members (upsertTaskLabel t l s) = members s \<and> labels (upsertTaskLabel t l s) = labels s
   \<and> users (upsertTaskLabel t l s) = users s \<and> activity (upsertTaskLabel t l s) = activity s"
  by (simp add: upsertTaskLabel_def split: option.splits)

lemma find_snoc_hit: "P y \<Longrightarrow> find P (xs @ [y]) \<noteq> None"
  by (induction xs) auto

lemma upsertTaskLabel_present:
  "find (\<lambda>x. tl_taskId x = t \<and> tl_labelId x = l) (taskLabels (upsertTaskLabel t l s)) \<noteq> None"
proof (cases "find (\<lambda>x. tl_taskId x = t \<and> tl_labelId x = l) (taskLabels s)")
  case None
  show ?thesis by (simp add: upsertTaskLabel_def None find_snoc_hit)
next
  case (Some a)
  then show ?thesis by (simp add: upsertTaskLabel_def)
qed

lemma upsertTaskLabel_again:
  "taskLabels s' = taskLabels (upsertTaskLabel t l s) \<Longrightarrow> upsertTaskLabel t l s' = s'"
  using upsertTaskLabel_present [of t l s]
  by (auto simp: upsertTaskLabel_def split: option.splits)

lemma addLabelToTask_ok:
  assumes "getProjectIdByTaskId s taskId = Inr p"
    and "requireProjectMember ctx p s = Inr u"
    and "find (\<lambda>l. l_id l = labelId) (labels s) = Some label"
    and "l_projectId label = p"
    and "userExists s (au_id u)"
    and "findTask s taskId = Some task"
  shows "addLabelToTask ctx taskId labelId s =
     (Inr task, (upsertTaskLabel taskId labelId s)\<lparr>activity := activity s @
         [\<lparr>a_id = nextId (upsertTaskLabel taskId labelId s), a_action = ''LABEL_ADDED_TO_TASK'',
           a_details = JObj [(''labelId'', JId labelId)], a_actorId = au_id u, a_projectId = p,
           a_taskId = Some taskId\<rparr>],
        nextId := Suc (nextId (upsertTaskLabel taskId labelId s))\<rparr>)"
  using assms upsertTaskLabel_frame [of taskId labelId s]
  by (simp add: addLabelToTask_def activityLog_create_def userExists_def findTask_def Let_def)

text \<open>
  Claim C10. For a task and a label of the same project and an actor who passes the
  membership gate (and is a stored user, so that the log entry can be written),
  \<open>addLabelToTask\<close> called twice with the same task and label succeeds both times, and
  the labels attached to the task, as \<open>Task.labels\<close> resolves them, are the same after
  the second call as after the first; the link table itself is unchanged by the second call.
\<close>

theorem addLabelToTask_idempotent:
  assumes "getProjectIdByTaskId s taskId = Inr p"
    and "requireProjectMember ctx p s = Inr u"
    and "find (\<lambda>l. l_id l = labelId) (labels s) = Some label"
    and "l_projectId label = p"
    and "userExists s (au_id u)"
  shows "\<exists>t1 s1 t2 s2.
      addLabelToTask ctx taskId labelId s = (Inr t1, s1)
    \<and> addLabelToTask ctx taskId labelId s1 = (Inr t2, s2)
    \<and> taskLabels s2 = taskLabels s1 \<and> labels s2 = labels s1
    \<and> Task_labels s2 t2 = Task_labels s1 t1
    \<and> set (Task_labels s2 t2) = set (Task_labels s1 t1)"
proof -
  obtain task where t: "findTask s taskId = Some task"
    using assms(1) by (auto simp: getProjectIdByTaskId_def split: option.splits)
  let ?s0 = "upsertTaskLabel taskId labelId s"
  let ?s1 = "?s0\<lparr>activity := activity s @
         [\<lparr>a_id = nextId ?s0, a_action = ''LABEL_ADDED_TO_TASK'',
           a_details = JObj [(''labelId'', JId labelId)], a_actorId = au_id u, a_projectId = p,
           a_taskId = Some taskId\<rparr>],
        nextId := Suc (nextId ?s0)\<rparr>"
  have first: "addLabelToTask ctx taskId labelId s = (Inr task, ?s1)"
    using addLabelToTask_ok [OF assms t] .
  have fr: "tasks ?s1 = tasks s" "columns ?s1 = columns s" "members ?s1 = members s"
    "labels ?s1 = labels s" "users ?s1 = users s"
    using upsertTaskLabel_frame [of taskId labelId s] by simp_all
  have again: "upsertTaskLabel taskId labelId ?s1 = ?s1"
    by (rule upsertTaskLabel_again [of _ taskId labelId s]) simp
  have second: "addLabelToTask ctx taskId labelId ?s1 =
     (Inr task, (upsertTaskLabel taskId labelId ?s1)\<lparr>activity := activity ?s1 @
         [\<lparr>a_id = nextId (upsertTaskLabel taskId labelId ?s1), a_action = ''LABEL_ADDED_TO_TASK'',
           a_details = JObj [(''labelId'', JId labelId)], a_actorId = au_id u, a_projectId = p,
           a_taskId = Some taskId\<rparr>],
        nextId := Suc (nextId (upsertTaskLabel taskId labelId ?s1))\<rparr>)"
  proof (rule addLabelToTask_ok)
    show "getProjectIdByTaskId ?s1 taskId = Inr p"
      using getProjectIdByTaskId_frame [OF fr(1,2)] assms(1) by simp
    show "requireProjectMember ctx p ?s1 = Inr u"
      using requireProjectMember_frame [OF fr(3)] assms(2) by simp
    show "find (\<lambda>l. l_id l = labelId) (labels ?s1) = Some label" using fr(4) assms(3) by simp
    show "l_projectId label = p" by (rule assms(4))
    show "userExists ?s1 (au_id u)" using assms(5) fr(5) by (simp add: userExists_def)
    show "findTask ?s1 taskId = Some task" using t fr(1) by (simp add: findTask_def)
  qed
  show ?thesis
    apply (rule exI [of _ task], rule exI [of _ ?s1])
    apply (rule exI [of _ task])
    apply (rule exI)
    apply (intro conjI)
         apply (rule first)
        apply (rule second)
       apply (simp_all add: again Task_labels_def)
    done
qed

theorem addLabelToTask_idempotent_witness:
  "\<exists>t1 s1 t2 s2.
      addLabelToTask alice 15 19 demo_store = (Inr t1, s1)
    \<and> addLabelToTask alice 15 19 s1 = (Inr t2, s2)
    \<and> taskLabels s2 = taskLabels s1 \<and> labels s2 = labels s1
    \<and> Task_labels s2 t2 = Task_labels s1 t1
    \<and> set (Task_labels s2 t2) = set (Task_labels s1 t1)"
proof -
  have p: "getProjectIdByTaskId demo_store 15 = Inr 10"
    by (simp add: getProjectIdByTaskId_def findTask_def findColumn_def demo_store_def)
  have m: "requireProjectMember alice 10 demo_store = Inr \<lparr>au_id = 1, au_role = USER\<rparr>"
    by (simp add: requireProjectMember_def requireAuth_def findMembership_def alice_def
        demo_store_def)
  have l: "find (\<lambda>l. l_id l = 19) (labels demo_store) = Some (labels demo_store ! 0)"
    by (simp add: demo_store_def)
  have q: "l_projectId (labels demo_store ! 0) = 10" by (simp add: demo_store_def)
  have e: "userExists demo_store (au_id \<lparr>au_id = 1, au_role = USER\<rparr>)"
    by (simp add: userExists_def demo_store_def)
  show ?thesis by (rule addLabelToTask_idempotent [OF p m l q e])
qed

subsection \<open>The activity log\<close>

lemma requireAuth_user: "requireAuth ctx = Inr u \<Longrightarrow> ctx_user ctx = Some u"
  by (simp add: requireAuth_def split: option.splits)

lemma requireProjectMember_user: "requireProjectMember ctx p s = Inr u \<Longrightarrow> ctx_user ctx = Some u"
  by (auto simp: requireProjectMember_def requireAuth_def split: option.splits if_splits)

lemma requireProjectOwnerOrAdmin_user:
  "requireProjectOwnerOrAdmin ctx p s = Inr u \<Longrightarrow> ctx_user ctx = Some u"
  by (auto simp: requireProjectOwnerOrAdmin_def requireAuth_def split: option.splits if_splits)

lemma activityLog_create_Some:
  "activityLog_create tag actor p t d s = Some s' \<Longrightarrow>
     \<exists>entry. activity s' = activity s @ [entry] \<and> a_action entry = tag \<and> a_actorId entry = actor"
  by (auto simp: activityLog_create_def split: if_splits)

lemma logged_createProject: "logged ctx ''PROJECT_CREATED'' s (createProject ctx name s)"
  by (auto simp: logged_def createProject_def Let_def dest: requireAuth_user split: sum.splits)

lemma logged_createColumn: "logged ctx ''COLUMN_CREATED'' s (createColumn ctx input s)"
  by (auto simp: logged_def createColumn_def Let_def
      dest!: requireProjectOwnerOrAdmin_user activityLog_create_Some split: sum.splits option.splits)

lemma logged_createTask: "logged ctx ''TASK_CREATED'' s (createTask ctx input s)"
  by (auto simp: logged_def createTask_def Let_def
      dest!: requireProjectMember_user activityLog_create_Some split: sum.splits option.splits)

lemma logged_updateTask: "logged ctx ''TASK_UPDATED'' s (updateTask ctx taskId input s)"
  by (auto simp: logged_def updateTask_def Let_def
      dest!: requireProjectMember_user activityLog_create_Some split: sum.splits option.splits)

lemma logged_moveTask: "logged ctx ''TASK_MOVED'' s (moveTask ctx input s)"
  by (auto simp: logged_def moveTask_def Let_def
      dest!: requireProjectMember_user activityLog_create_Some split: sum.splits option.splits)

lemma logged_assignTask: "logged ctx ''TASK_ASSIGNED'' s (assignTask ctx taskId assigneeId s)"
  by (auto simp: logged_def assignTask_def Let_def
      dest!: requireProjectMember_user activityLog_create_Some split: sum.splits option.splits)

lemma logged_commentTask: "logged ctx ''COMMENT_ADDED'' s (commentTask ctx input s)"
  by (auto simp: logged_def commentTask_def Let_def
      dest!: requireProjectMember_user activityLog_create_Some split: sum.splits option.splits)

lemma logged_inviteMember: "logged ctx ''MEMBER_INVITED'' s (inviteMember ctx input token s)"
  by (auto simp: logged_def inviteMember_def Let_def
      dest!: requireProjectOwnerOrAdmin_user activityLog_create_Some split: sum.splits option.splits)

lemma logged_createLabel: "logged ctx ''LABEL_CREATED'' s (createLabel ctx input s)"
  by (auto simp: logged_def createLabel_def Let_def
      dest!: requireProjectOwnerOrAdmin_user activityLog_create_Some split: sum.splits option.splits)

lemma logged_acceptInvite: "logged ctx ''INVITE_ACCEPTED'' s (acceptInvite ctx token s)"
  by (auto simp: logged_def acceptInvite_def Let_def
      dest!: requireAuth_user activityLog_create_Some upsertMembership_frame
      split: sum.splits option.splits prod.splits)

lemma logged_addLabelToTask: "logged ctx ''LABEL_ADDED_TO_TASK'' s (addLabelToTask ctx taskId labelId s)"
  by (auto simp: logged_def addLabelToTask_def Let_def activityLog_create_def findTask_def
      getProjectIdByTaskId_def upsertTaskLabel_frame
      dest!: requireProjectMember_user split: sum.splits option.splits if_splits)

lemma logged_removeLabelFromTask:
  "logged ctx ''LABEL_REMOVED_FROM_TASK'' s (removeLabelFromTask ctx taskId labelId s)"
  by (auto simp: logged_def removeLabelFromTask_def Let_def activityLog_create_def findTask_def
      getProjectIdByTaskId_def
      dest!: requireProjectMember_user split: sum.splits option.splits if_splits)

lemma logged_returning: "logged ctx tag s out \<Longrightarrow> logged ctx tag s (returning f out)"
  by (cases "fst out") (simp_all add: logged_def returning_def)

lemma logged_execute: "logged ctx (actionTag m) s (execute ctx m s)"
  by (cases m)
    (simp_all add: logged_returning logged_createProject logged_createColumn logged_createTask
      logged_updateTask logged_moveTask logged_assignTask logged_commentTask logged_inviteMember
      logged_acceptInvite logged_createLabel logged_addLabelToTask logged_removeLabelFromTask)

text \<open>
  Claim C4, as amended. Every successful call of a mutation appends exactly one entry to the
  activity log, carrying the caller as actor and the action tag of that mutation, whether or
  not the call changed any other state; a call that fails appends none. The correspondence
  is one to one between successful mutation calls and log entries.
\<close>

theorem every_success_logged_once:
  "(execute ctx m s = (Inr r, s') \<longrightarrow>
      (\<exists>entry u. ctx_user ctx = Some u \<and> activity s' = activity s @ [entry]
         \<and> a_action entry = actionTag m \<and> a_actorId entry = au_id u))
   \<and> (execute ctx m s = (Inl e, s') \<longrightarrow> activity s' = activity s)"
  using logged_execute [of ctx m s] by (auto simp: logged_def)

theorem every_success_logged_once_witness:
  "(\<exists>entry. activity (snd (execute alice (RemoveLabelFromTask 15 19) demo_store)) = [entry]
       \<and> a_action entry = ''LABEL_REMOVED_FROM_TASK'' \<and> a_actorId entry = 1)
   \<and> activity (snd (execute bob (RemoveLabelFromTask 15 19) demo_store)) = []"
proof -
  have a: "ctx_user alice = Some \<lparr>au_id = 1, au_role = USER\<rparr>" by (simp add: alice_def)
  have e: "activity demo_store = []" by (simp add: demo_store_def)
  have "fst (removeLabelFromTask alice 15 19 demo_store) = Inr (tasks demo_store ! 0)"
    by (simp add: removeLabelFromTask_def getProjectIdByTaskId_def findTask_def findColumn_def
        requireProjectMember_def requireAuth_def findMembership_def alice_def demo_store_def
        activityLog_create_def userExists_def Let_def)
  then have ok: "execute alice (RemoveLabelFromTask 15 19) demo_store
      = (Inr (ATask (tasks demo_store ! 0)), snd (execute alice (RemoveLabelFromTask 15 19) demo_store))"
    by (simp add: returning_def)
  have "fst (removeLabelFromTask bob 15 19 demo_store) = Inl Forbidden"
    by (simp add: removeLabelFromTask_def getProjectIdByTaskId_def findTask_def findColumn_def
        requireProjectMember_def requireAuth_def findMembership_def bob_def demo_store_def)
  then have no: "execute bob (RemoveLabelFromTask 15 19) demo_store
      = (Inl Forbidden, snd (execute bob (RemoveLabelFromTask 15 19) demo_store))"
    by (simp add: returning_def)
  show ?thesis
    using every_success_logged_once [of alice "RemoveLabelFromTask 15 19" demo_store
        "ATask (tasks demo_store ! 0)" "snd (execute alice (RemoveLabelFromTask 15 19) demo_store)"]
      every_success_logged_once [of bob "RemoveLabelFromTask 15 19" demo_store _
        "snd (execute bob (RemoveLabelFromTask 15 19) demo_store)" Forbidden]
      ok no a e
    by auto
qed

text \<open>
  The claim as first stated also denies an entry to a successful call that changes no state.
  \<open>removeLabelFromTask\<close> of a label that is not attached succeeds, leaves every table as it
  was, and still appends its entry.
\<close>

theorem log_row_without_state_change:
  "fst (removeLabelFromTask alice 15 19 demo_store) = Inr (tasks demo_store ! 0)
   \<and> taskLabels demo_store = []
   \<and> (snd (removeLabelFromTask alice 15 19 demo_store))\<lparr>activity := [], nextId := 30\<rparr> = demo_store
   \<and> activity demo_store = []
   \<and> activity (snd (removeLabelFromTask alice 15 19 demo_store))
       = [\<lparr>a_id = 30, a_action = ''LABEL_REMOVED_FROM_TASK'',
           a_details = JObj [(''labelId'', JId 19)], a_actorId = 1, a_projectId = 10,
           a_taskId = Some 15\<rparr>]"
  by (simp add: removeLabelFromTask_def getProjectIdByTaskId_def findTask_def findColumn_def
        requireProjectMember_def requireAuth_def findMembership_def alice_def demo_store_def
        activityLog_create_def userExists_def Let_def)

subsection \<open>Contiguous positions\<close>

lemma contiguous_Nil [simp]: "contiguous []"
  by (simp add: contiguous_def)

lemma contiguous_mset: "mset ps = mset qs \<Longrightarrow> contiguous ps = contiguous qs"
  using mset_eq_imp_distinct_iff [of ps qs] mset_eq_setD [of ps qs] mset_eq_length [of ps qs]
  by (simp add: contiguous_def)

lemma contiguous_snoc: "contiguous ps \<Longrightarrow> contiguous (ps @ [int (length ps) + 1])"
  by (auto simp: contiguous_def)

lemma contiguous_insert:
  assumes "contiguous ps" and "1 \<le> P" and "P \<le> int (length ps) + 1"
  shows "contiguous (P # map (bump P) ps)"
proof -
  have d: "distinct ps" and s: "set ps = {1..int (length ps)}"
    using assms(1) by (simp_all add: contiguous_def)
  have "inj_on (bump P) (set ps)"
    by (auto simp: inj_on_def bump_def split: if_splits)
  then have d': "distinct (map (bump P) ps)" using d by (simp add: distinct_map)
  have n: "P \<notin> bump P ` set ps" by (auto simp: bump_def split: if_splits)
  have "bump P ` {1..int (length ps)} \<union> {P} = {1..int (length ps) + 1}"
  proof (intro set_eqI iffI)
    fix x assume "x \<in> bump P ` {1..int (length ps)} \<union> {P}"
    then show "x \<in> {1..int (length ps) + 1}"
      using assms(2,3) by (auto simp: bump_def split: if_splits)
  next
    fix x assume x: "x \<in> {1..int (length ps) + 1}"
    consider "x = P" | "x < P" | "P < x" by linarith
    then show "x \<in> bump P ` {1..int (length ps)} \<union> {P}"
    proof cases
      case 1 then show ?thesis by simp
    next
      case 2
      then have "x = bump P x" "x \<in> {1..int (length ps)}"
        using x assms(3) by (auto simp: bump_def)
      then show ?thesis by blast
    next
      case 3
      then have "x = bump P (x - 1)" "x - 1 \<in> {1..int (length ps)}"
        using x assms(2) by (auto simp: bump_def)
      then show ?thesis by blast
    qed
  qed
  then show ?thesis using d' n s by (auto simp: contiguous_def)
qed

lemma contiguous_count: "contiguous (map (\<lambda>i. 1 + int i) [0..<n])"
proof -
  have "inj_on (\<lambda>i. 1 + int i) (set [0..<n])" by (auto simp: inj_on_def)
  then have "distinct (map (\<lambda>i. 1 + int i) [0..<n])" by (simp add: distinct_map)
  moreover have "(\<lambda>i. 1 + int i) ` {0..<n} = {1..int n}"
  proof (intro set_eqI iffI)
    fix x assume "x \<in> (\<lambda>i. 1 + int i) ` {0..<n}"
    then show "x \<in> {1..int n}" by auto
  next
    fix x assume "x \<in> {1..int n}"
    then have "x = 1 + int (nat (x - 1))" "nat (x - 1) \<in> {0..<n}" by auto
    then show "x \<in> (\<lambda>i. 1 + int i) ` {0..<n}" by blast
  qed
  ultimately show ?thesis by (simp add: contiguous_def)
qed

lemma contiguous_fold_max:
  assumes "contiguous (p # ps)"
  shows "fold max ps p = int (length (p # ps))"
proof -
  have "fold max ps p = Max (set (p # ps))" by (rule Max.set_eq_fold [symmetric])
  also have "\<dots> = Max {1..int (length (p # ps))}" using assms by (simp add: contiguous_def)
  also have "\<dots> = int (length (p # ps))" by (simp add: Max_eq_iff)
  finally show ?thesis .
qed

lemma renumber_map: "renumber ids k ts = map (relabel ids k) ts"
proof (induction ids arbitrary: k ts)
  case Nil
  then show ?case by simp
next
  case (Cons i ids)
  show ?case by (simp add: Cons.IH setPosition_def)
qed

lemma relabel_id [simp]: "t_id (relabel ids k t) = t_id t"
  by (induction ids arbitrary: k t) auto

lemma relabel_column [simp]: "t_columnId (relabel ids k t) = t_columnId t"
  by (induction ids arbitrary: k t) auto

lemma relabel_other: "t_id t \<notin> set ids \<Longrightarrow> relabel ids k t = t"
  by (induction ids arbitrary: k) auto

lemma relabel_positions:
  "distinct (map t_id ys) \<Longrightarrow>
     map (\<lambda>t. t_position (relabel (map t_id ys) k t)) ys = map (\<lambda>i. k + int i) [0..<length ys]"
proof (induction ys arbitrary: k)
  case Nil
  then show ?case by simp
next
  case (Cons y ys)
  have fresh: "t_id y \<notin> set (map t_id ys)" and d: "distinct (map t_id ys)"
    using Cons.prems by simp_all
  have hd: "t_position (relabel (map t_id (y # ys)) k y) = k"
    using relabel_other [of "y\<lparr>t_position := k\<rparr>" "map t_id ys" "k + 1"] fresh by simp
  have "map (\<lambda>t. t_position (relabel (map t_id (y # ys)) k t)) ys
          = map (\<lambda>t. t_position (relabel (map t_id ys) (k + 1) t)) ys"
  proof (rule map_cong [OF refl])
    fix t assume "t \<in> set ys"
    then have "t_id t \<in> set (map t_id ys)" by simp
    then have "t_id t \<noteq> t_id y" using fresh by metis
    then show "t_position (relabel (map t_id (y # ys)) k t)
        = t_position (relabel (map t_id ys) (k + 1) t)" by simp
  qed
  also have "\<dots> = map (\<lambda>i. (k + 1) + int i) [0..<length ys]"
    by (rule Cons.IH [OF d])
  also have "\<dots> = map (\<lambda>i. k + int i) (map Suc [0..<length ys])"
    by (simp add: add.assoc)
  finally have tl: "map (\<lambda>t. t_position (relabel (map t_id (y # ys)) k t)) ys
          = map (\<lambda>i. k + int i) (map Suc [0..<length ys])" .
  have "[0..<length (y # ys)] = 0 # map Suc [0..<length ys]"
    by (simp add: upt_conv_Cons map_Suc_upt del: upt_Suc)
  then show ?case using hd tl by simp
qed

lemma renumber_ids: "map t_id (renumber ids k ts) = map t_id ts"
  by (simp add: renumber_map)

lemma renumber_source_column:
  assumes "distinct (map t_id ts)"
  shows "contiguous (map t_position
           (filter (\<lambda>t. t_columnId t = c) (renumber (sourceTasks c ts) 1 ts)))"
proof -
  let ?xs = "filter (\<lambda>t. t_columnId t = c) ts"
  let ?ys = "sort_key t_position ?xs"
  let ?f = "\<lambda>t. t_position (relabel (map t_id ?ys) 1 t)"
  have dx: "distinct (map t_id ?xs)" using assms by (rule distinct_map_filter)
  have "mset (map t_id ?ys) = mset (map t_id ?xs)" by simp
  then have dy: "distinct (map t_id ?ys)" using dx mset_eq_imp_distinct_iff by blast
  have "filter (\<lambda>t. t_columnId t = c) (renumber (sourceTasks c ts) 1 ts)
          = map (relabel (map t_id ?ys) 1) ?xs"
    by (simp add: renumber_map sourceTasks_def filter_map comp_def)
  then have "mset (map t_position (filter (\<lambda>t. t_columnId t = c) (renumber (sourceTasks c ts) 1 ts)))
          = mset (map ?f ?xs)"
    by (simp add: comp_def)
  also have "\<dots> = mset (map ?f ?ys)" by simp
  also have "\<dots> = mset (map (\<lambda>i. 1 + int i) [0..<length ?ys])"
    using relabel_positions [OF dy, of 1] by simp
  finally show ?thesis
    using contiguous_mset contiguous_count by blast
qed

lemma renumber_other_column:
  assumes "distinct (map t_id ts)" and "c \<noteq> c0"
  shows "filter (\<lambda>t. t_columnId t = c) (renumber (sourceTasks c0 ts) 1 ts)
           = filter (\<lambda>t. t_columnId t = c) ts"
proof -
  have inj: "inj_on t_id (set ts)" using assms(1) by (simp add: distinct_map)
  have out: "t_id t \<notin> set (sourceTasks c0 ts)" if "t \<in> set ts" and "t_columnId t = c" for t
  proof
    assume "t_id t \<in> set (sourceTasks c0 ts)"
    then obtain t' where "t' \<in> set ts" "t_columnId t' = c0" "t_id t' = t_id t"
      by (auto simp: sourceTasks_def)
    with that inj have "t' = t" by (auto dest: inj_onD)
    with \<open>t_columnId t' = c0\<close> that assms(2) show False by simp
  qed
  have "filter (\<lambda>t. t_columnId t = c) (renumber (sourceTasks c0 ts) 1 ts)
          = map (relabel (sourceTasks c0 ts) 1) (filter (\<lambda>t. t_columnId t = c) ts)"
    by (simp add: renumber_map filter_map comp_def)
  also have "\<dots> = filter (\<lambda>t. t_columnId t = c) ts"
    by (rule map_idI) (simp add: out relabel_other)
  finally show ?thesis .
qed

lemma filter_map_same:
  "(\<And>x. x \<in> set xs \<Longrightarrow> P (g x) = P x) \<Longrightarrow> (\<And>x. x \<in> set xs \<Longrightarrow> P x \<Longrightarrow> g x = x)
     \<Longrightarrow> filter P (map g xs) = filter P xs"
  by (induction xs) auto

lemma place_shift_ids: "map t_id (placeTask tid c1 P (shiftTasks c1 P ts)) = map t_id ts"
  by (simp add: placeTask_def shiftTasks_def comp_def)

lemma find_unique:
  assumes "distinct (map t_id ts)" and "find (\<lambda>t. t_id t = tid) ts = Some task"
    and "t \<in> set ts" and "t_id t = tid"
  shows "t = task"
proof -
  have "task \<in> set ts" "t_id task = tid"
    using assms(2) by (auto simp: find_Some_iff)
  moreover have "inj_on t_id (set ts)" using assms(1) by (simp add: distinct_map)
  ultimately show ?thesis using assms(3,4) by (auto dest: inj_onD)
qed

lemma place_shift_other_column:
  assumes "distinct (map t_id ts)" and "find (\<lambda>t. t_id t = tid) ts = Some task"
    and "c \<noteq> c1" and "c \<noteq> t_columnId task"
  shows "filter (\<lambda>t. t_columnId t = c) (placeTask tid c1 P (shiftTasks c1 P ts))
           = filter (\<lambda>t. t_columnId t = c) ts"
proof -
  have u: "t_columnId t \<noteq> c" if "t \<in> set ts" "t_id t = tid" for t
    using find_unique [OF assms(1,2) that] assms(4) by simp
  show ?thesis
    unfolding placeTask_def shiftTasks_def map_map
    by (rule filter_map_same) (use u assms(3) in \<open>auto simp: comp_def\<close>)
qed

lemma place_shift_Cons:
  "placeTask tid c1 P (shiftTasks c1 P (x # xs)) =
     (if t_id x = tid then x\<lparr>t_columnId := c1, t_position := P\<rparr>
      else if t_columnId x = c1 then x\<lparr>t_position := bump P (t_position x)\<rparr> else x)
     # placeTask tid c1 P (shiftTasks c1 P xs)"
  by (auto simp: placeTask_def shiftTasks_def bump_def)

lemma place_shift_target_plain:
  "tid \<notin> t_id ` set xs \<Longrightarrow>
     map t_position (filter (\<lambda>t. t_columnId t = c1) (placeTask tid c1 P (shiftTasks c1 P xs)))
       = map (bump P) (map t_position (filter (\<lambda>t. t_columnId t = c1) xs))"
proof (induction xs)
  case Nil
  then show ?case by (simp add: placeTask_def shiftTasks_def)
next
  case (Cons x xs)
  then show ?case by (simp add: place_shift_Cons)
qed

lemma place_shift_target_column:
  assumes "distinct (map t_id xs)" and "task \<in> set xs" and "t_id task = tid"
    and "t_columnId task \<noteq> c1"
  shows "mset (map t_position (filter (\<lambda>t. t_columnId t = c1) (placeTask tid c1 P (shiftTasks c1 P xs))))
           = add_mset P (mset (map (bump P) (map t_position (filter (\<lambda>t. t_columnId t = c1) xs))))"
  using assms
proof (induction xs)
  case Nil
  then show ?case by simp
next
  case (Cons x xs)
  show ?case
  proof (cases "x = task")
    case True
    then have "tid \<notin> t_id ` set xs" using Cons.prems by auto
    from place_shift_target_plain [OF this, of c1 P] True Cons.prems(3,4)
    show ?thesis by (simp add: place_shift_Cons)
  next
    case False
    then have in_tl: "task \<in> set xs" using Cons.prems(2) by simp
    then have "t_id x \<noteq> tid" using Cons.prems(1,3) by auto
    moreover have "mset (map t_position (filter (\<lambda>t. t_columnId t = c1)
            (placeTask tid c1 P (shiftTasks c1 P xs))))
        = add_mset P (mset (map (bump P) (map t_position (filter (\<lambda>t. t_columnId t = c1) xs))))"
      using Cons.IH in_tl Cons.prems by simp
    ultimately show ?thesis
      by (simp add: place_shift_Cons)
  qed
qed

lemma positionsOk_iff:
  "positionsOk s \<longleftrightarrow>
     (\<forall>p. contiguous (columnPositions s p)) \<and> (\<forall>c. contiguous (taskPositions s c))"
proof -
  have a: "columnPositions s p = []" if "p \<notin> set (map c_projectId (columns s))" for p
    using that by (auto simp: columnPositions_def filter_empty_conv)
  have b: "taskPositions s c = []" if "c \<notin> set (map t_columnId (tasks s))" for c
    using that by (auto simp: taskPositions_def filter_empty_conv)
  show ?thesis
    unfolding positionsOk_def
    by (metis a b contiguous_Nil)
qed

lemma moved_tasks_contiguous:
  assumes d: "distinct (map t_id ts)"
    and ok: "\<And>c. contiguous (map t_position (filter (\<lambda>t. t_columnId t = c) ts))"
    and f: "find (\<lambda>t. t_id t = tid) ts = Some task"
    and lo: "1 \<le> P"
    and rng: "t_columnId task = c1 \<or> P \<le> int (length (filter (\<lambda>t. t_columnId t = c1) ts)) + 1"
  shows "contiguous (map t_position (filter (\<lambda>t. t_columnId t = c)
           (renumber (sourceTasks (t_columnId task) (placeTask tid c1 P (shiftTasks c1 P ts))) 1
              (placeTask tid c1 P (shiftTasks c1 P ts)))))"
proof -
  let ?ts2 = "placeTask tid c1 P (shiftTasks c1 P ts)"
  let ?c0 = "t_columnId task"
  have d2: "distinct (map t_id ?ts2)" using d by (simp add: place_shift_ids)
  show ?thesis
  proof (cases "c = ?c0")
    case True
    then show ?thesis using renumber_source_column [OF d2] by simp
  next
    case False
    then have same: "filter (\<lambda>t. t_columnId t = c) (renumber (sourceTasks ?c0 ?ts2) 1 ?ts2)
        = filter (\<lambda>t. t_columnId t = c) ?ts2"
      using renumber_other_column [OF d2] by simp
    show ?thesis
    proof (cases "c = c1")
      case True
      with False have ne: "?c0 \<noteq> c1" by simp
      have mem: "task \<in> set ts" "t_id task = tid" using f by (auto simp: find_Some_iff)
      let ?ps = "map t_position (filter (\<lambda>t. t_columnId t = c1) ts)"
      have "mset (map t_position (filter (\<lambda>t. t_columnId t = c1) ?ts2)) = mset (P # map (bump P) ?ps)"
        using place_shift_target_column [OF d mem ne] by simp
      moreover have "contiguous (P # map (bump P) ?ps)"
        using contiguous_insert [OF ok lo] rng ne by simp
      ultimately have "contiguous (map t_position (filter (\<lambda>t. t_columnId t = c1) ?ts2))"
        using contiguous_mset by blast
      then show ?thesis using same True by simp
    next
      case c: False
      have "filter (\<lambda>t. t_columnId t = c) ?ts2 = filter (\<lambda>t. t_columnId t = c) ts"
        using place_shift_other_column [OF d f c False] .
      then show ?thesis using same ok by simp
    qed
  qed
qed

lemma placed_task_found:
  assumes "find (\<lambda>t. t_id t = tid) ts = Some task"
  shows "find (\<lambda>t. t_id t = tid) (placeTask tid c1 P (shiftTasks c1 P ts)) \<noteq> None"
proof -
  have "tid \<in> set (map t_id ts)" using assms by (auto simp: find_Some_iff)
  then have "tid \<in> set (map t_id (placeTask tid c1 P (shiftTasks c1 P ts)))"
    by (simp only: place_shift_ids)
  then show ?thesis by (auto simp: find_None_iff)
qed

lemma moveTask_effect:
  obtains (unchanged) "snd (moveTask ctx input s) = s"
  | (moved) task where "findTask s (mti_taskId input) = Some task" and "1 \<le> mti_toPosition input"
      and "tasks (snd (moveTask ctx input s)) =
             renumber (sourceTasks (t_columnId task)
                 (placeTask (mti_taskId input) (mti_toColumnId input) (mti_toPosition input)
                    (shiftTasks (mti_toColumnId input) (mti_toPosition input) (tasks s)))) 1
               (placeTask (mti_taskId input) (mti_toColumnId input) (mti_toPosition input)
                  (shiftTasks (mti_toColumnId input) (mti_toPosition input) (tasks s)))"
      and "columns (snd (moveTask ctx input s)) = columns s"
      and "projects (snd (moveTask ctx input s)) = projects s"
      and "nextId s \<le> nextId (snd (moveTask ctx input s))"
proof (cases "snd (moveTask ctx input s) = s")
  case True
  then show ?thesis by (rule unchanged)
next
  case False
  then obtain task where t: "findTask s (mti_taskId input) = Some task"
    and lo: "1 \<le> mti_toPosition input"
    by (auto simp: moveTask_def split: sum.splits if_splits option.splits)
  have found: "find (\<lambda>t. t_id t = mti_taskId input)
      (placeTask (mti_taskId input) (mti_toColumnId input) (mti_toPosition input)
         (shiftTasks (mti_toColumnId input) (mti_toPosition input) (tasks s))) \<noteq> None"
    using placed_task_found t by (simp add: findTask_def)
  show ?thesis
  proof (rule moved [OF t lo])
    show "tasks (snd (moveTask ctx input s)) =
             renumber (sourceTasks (t_columnId task)
                 (placeTask (mti_taskId input) (mti_toColumnId input) (mti_toPosition input)
                    (shiftTasks (mti_toColumnId input) (mti_toPosition input) (tasks s)))) 1
               (placeTask (mti_taskId input) (mti_toColumnId input) (mti_toPosition input)
                  (shiftTasks (mti_toColumnId input) (mti_toPosition input) (tasks s)))"
      using False t found
      by (auto simp: moveTask_def Let_def activityLog_create_def
          split: sum.splits if_splits option.splits)
    show "columns (snd (moveTask ctx input s)) = columns s"
      by (auto simp: moveTask_def Let_def activityLog_create_def
          split: sum.splits if_splits option.splits)
    show "projects (snd (moveTask ctx input s)) = projects s"
      by (auto simp: moveTask_def Let_def activityLog_create_def
          split: sum.splits if_splits option.splits)
    show "nextId s \<le> nextId (snd (moveTask ctx input s))"
      by (auto simp: moveTask_def Let_def activityLog_create_def
          split: sum.splits if_splits option.splits)
  qed
qed

lemma validStore_unfold:
  "validStore s \<longleftrightarrow>
     (\<forall>p. contiguous (columnPositions s p)) \<and> (\<forall>c. contiguous (taskPositions s c))
     \<and> distinct (map t_id (tasks s)) \<and> (\<forall>t \<in> set (tasks s). t_id t < nextId s)
     \<and> (\<forall>c \<in> set (columns s). projectExists s (c_projectId c))"
  by (simp add: validStore_def positionsOk_iff)

lemma moveTask_valid:
  assumes v: "validStore s" and r: "inRange (MoveTask input) s"
  shows "validStore (snd (moveTask ctx input s))"
proof (cases rule: moveTask_effect [of ctx input s])
  case unchanged
  then show ?thesis using v by simp
next
  case (moved task)
  let ?s' = "snd (moveTask ctx input s)"
  have d: "distinct (map t_id (tasks s))" and lt: "\<forall>t \<in> set (tasks s). t_id t < nextId s"
    and okc: "\<And>p. contiguous (columnPositions s p)" and okt: "\<And>c. contiguous (taskPositions s c)"
    and fk: "\<forall>c \<in> set (columns s). projectExists s (c_projectId c)"
    using v by (simp_all add: validStore_unfold)
  have ids: "map t_id (tasks ?s') = map t_id (tasks s)"
    by (simp add: moved(3) renumber_ids place_shift_ids)
  have f: "find (\<lambda>t. t_id t = mti_taskId input) (tasks s) = Some task"
    using moved(1) by (simp add: findTask_def)
  have rng: "t_columnId task = mti_toColumnId input
      \<or> mti_toPosition input \<le> int (length (filter (\<lambda>t. t_columnId t = mti_toColumnId input) (tasks s))) + 1"
    using r moved(1) by (simp add: taskPositions_def)
  have "contiguous (taskPositions ?s' c)" for c
    unfolding taskPositions_def moved(3)
    by (rule moved_tasks_contiguous [OF d _ f moved(2) rng]) (use okt in \<open>simp add: taskPositions_def\<close>)
  moreover have "contiguous (columnPositions ?s' p)" for p
    using okc [of p] by (simp add: columnPositions_def moved(4))
  moreover have "distinct (map t_id (tasks ?s'))" using d ids by simp
  moreover have "\<forall>t \<in> set (tasks ?s'). t_id t < nextId ?s'"
  proof
    fix t assume "t \<in> set (tasks ?s')"
    then have "t_id t \<in> set (map t_id (tasks ?s'))" by simp
    then have "t_id t \<in> set (map t_id (tasks s))" by (simp only: ids)
    then have "t_id t < nextId s" using lt by auto
    then show "t_id t < nextId ?s'" using moved(6) by simp
  qed
  moreover have "\<forall>c \<in> set (columns ?s'). projectExists ?s' (c_projectId c)"
    using fk by (simp add: moved(4,5) projectExists_def)
  ultimately show ?thesis by (simp add: validStore_unfold)
qed

lemma shiftColumns_same_project:
  "map c_position (filter (\<lambda>c. c_projectId c = p) (shiftColumns p P cs))
     = map (bump P) (map c_position (filter (\<lambda>c. c_projectId c = p) cs))"
  by (induction cs) (auto simp: shiftColumns_def bump_def)

lemma shiftColumns_other_project:
  "q \<noteq> p \<Longrightarrow> filter (\<lambda>c. c_projectId c = q) (shiftColumns p P cs)
     = filter (\<lambda>c. c_projectId c = q) cs"
  by (induction cs) (auto simp: shiftColumns_def)

lemma shiftColumns_projects: "map c_projectId (shiftColumns p P cs) = map c_projectId cs"
  by (simp add: shiftColumns_def comp_def)

lemma shiftColumns_absent:
  "p \<notin> set (map c_projectId cs) \<Longrightarrow> shiftColumns p P cs = cs"
  by (induction cs) (auto simp: shiftColumns_def)

lemma createColumn_effect:
  obtains (unchanged) "snd (createColumn ctx input s) = s"
  | (shifted) "\<not> projectExists s (cci_projectId input)"
      and "snd (createColumn ctx input s)
             = s\<lparr>columns := shiftColumns (cci_projectId input) (cci_position input) (columns s)\<rparr>"
  | (created) col where "projectExists s (cci_projectId input)" and "1 \<le> cci_position input"
      and "c_position col = cci_position input" and "c_projectId col = cci_projectId input"
      and "columns (snd (createColumn ctx input s))
             = shiftColumns (cci_projectId input) (cci_position input) (columns s) @ [col]"
      and "tasks (snd (createColumn ctx input s)) = tasks s"
      and "projects (snd (createColumn ctx input s)) = projects s"
      and "nextId s \<le> nextId (snd (createColumn ctx input s))"
proof (cases "requireProjectOwnerOrAdmin ctx (cci_projectId input) s")
  case (Inl e)
  then show ?thesis by (intro unchanged) (simp add: createColumn_def)
next
  case (Inr u)
  show ?thesis
  proof (cases "length (trim (cci_title input)) < 1 \<or> cci_position input < 1")
    case True
    then show ?thesis by (intro unchanged) (auto simp: createColumn_def Inr)
  next
    case ok: False
    show ?thesis
    proof (cases "projectExists s (cci_projectId input)")
      case False
      then show ?thesis using ok
        by (intro shifted) (simp_all add: createColumn_def Inr projectExists_def Let_def)
    next
      case True
      let ?col = "\<lparr>c_id = nextId s, c_title = trim (cci_title input),
                    c_position = cci_position input, c_projectId = cci_projectId input\<rparr>"
      show ?thesis
      proof (rule created [of ?col])
        show "projectExists s (cci_projectId input)" by (rule True)
        show "1 \<le> cci_position input" using ok by simp
        show "c_position ?col = cci_position input" "c_projectId ?col = cci_projectId input"
          by simp_all
        show "columns (snd (createColumn ctx input s))
             = shiftColumns (cci_projectId input) (cci_position input) (columns s) @ [?col]"
          using True ok
          by (auto simp: createColumn_def Inr projectExists_def Let_def activityLog_create_def
              split: option.splits)
        show "tasks (snd (createColumn ctx input s)) = tasks s"
          using True ok
          by (auto simp: createColumn_def Inr projectExists_def Let_def activityLog_create_def
              split: option.splits)
        show "projects (snd (createColumn ctx input s)) = projects s"
          using True ok
          by (auto simp: createColumn_def Inr projectExists_def Let_def activityLog_create_def
              split: option.splits)
        show "nextId s \<le> nextId (snd (createColumn ctx input s))"
          using True ok
          by (auto simp: createColumn_def Inr projectExists_def Let_def activityLog_create_def
              split: option.splits)
      qed
    qed
  qed
qed

lemma createColumn_valid:
  assumes v: "validStore s" and r: "inRange (CreateColumn input) s"
  shows "validStore (snd (createColumn ctx input s))"
proof (cases rule: createColumn_effect [of ctx input s])
  case unchanged
  then show ?thesis using v by simp
next
  case shifted
  have "cci_projectId input \<notin> set (map c_projectId (columns s))"
    using v shifted(1) by (auto simp: validStore_unfold)
  then have "shiftColumns (cci_projectId input) (cci_position input) (columns s) = columns s"
    by (rule shiftColumns_absent)
  then show ?thesis using v shifted(2) by simp
next
  case (created col)
  let ?s' = "snd (createColumn ctx input s)"
  let ?p = "cci_projectId input"
  let ?P = "cci_position input"
  have okc: "\<And>p. contiguous (columnPositions s p)" and okt: "\<And>c. contiguous (taskPositions s c)"
    and d: "distinct (map t_id (tasks s))" and lt: "\<forall>t \<in> set (tasks s). t_id t < nextId s"
    and fk: "\<forall>c \<in> set (columns s). projectExists s (c_projectId c)"
    using v by (simp_all add: validStore_unfold)
  have "contiguous (columnPositions ?s' q)" for q
  proof (cases "q = ?p")
    case True
    have "columnPositions ?s' ?p = map (bump ?P) (columnPositions s ?p) @ [?P]"
      by (simp add: columnPositions_def created(3,4,5) shiftColumns_same_project)
    then have "mset (columnPositions ?s' ?p) = mset (?P # map (bump ?P) (columnPositions s ?p))"
      by simp
    moreover have "contiguous (?P # map (bump ?P) (columnPositions s ?p))"
      using contiguous_insert [OF okc created(2)] r by simp
    ultimately show ?thesis using True contiguous_mset by blast
  next
    case False
    then have "columnPositions ?s' q = columnPositions s q"
      by (simp add: columnPositions_def created(4,5) shiftColumns_other_project)
    then show ?thesis using okc by simp
  qed
  moreover have "contiguous (taskPositions ?s' c)" for c
    using okt [of c] by (simp add: taskPositions_def created(6))
  moreover have "distinct (map t_id (tasks ?s'))" using d by (simp add: created(6))
  moreover have "\<forall>t \<in> set (tasks ?s'). t_id t < nextId ?s'"
    using lt created(8) by (auto simp: created(6))
  moreover have "\<forall>c \<in> set (columns ?s'). projectExists ?s' (c_projectId c)"
  proof
    fix c assume "c \<in> set (columns ?s')"
    then have "c_projectId c \<in> set (map c_projectId (columns ?s'))" by simp
    then have "c_projectId c \<in> set (map c_projectId (columns s)) \<or> c_projectId c = ?p"
      by (auto simp: created(4,5) shiftColumns_projects)
    then have "projectExists s (c_projectId c)" using fk created(1) by auto
    then show "projectExists ?s' (c_projectId c)" by (simp add: projectExists_def created(7))
  qed
  ultimately show ?thesis by (simp add: validStore_unfold)
qed

lemma lastPosition_contiguous:
  assumes "contiguous (taskPositions s c)"
  shows "(case lastPosition s c of None \<Rightarrow> 0 | Some p \<Rightarrow> p) + 1 = int (length (taskPositions s c)) + 1"
proof (cases "taskPositions s c")
  case Nil
  then show ?thesis by (simp add: lastPosition_def taskPositions_def)
next
  case (Cons p ps)
  then have "fold max ps p = int (length (p # ps))" using assms contiguous_fold_max by simp
  then show ?thesis using Cons by (simp add: lastPosition_def taskPositions_def)
qed

lemma createTask_effect:
  obtains (unchanged) "snd (createTask ctx input s) = s"
  | (created) task where "t_id task = nextId s" and "t_columnId task = cti_columnId input"
      and "t_position task
             = (case lastPosition s (cti_columnId input) of None \<Rightarrow> 0 | Some p \<Rightarrow> p) + 1"
      and "tasks (snd (createTask ctx input s)) = tasks s @ [task]"
      and "columns (snd (createTask ctx input s)) = columns s"
      and "projects (snd (createTask ctx input s)) = projects s"
      and "nextId s < nextId (snd (createTask ctx input s))"
proof (cases "snd (createTask ctx input s) = s")
  case True
  then show ?thesis by (rule unchanged)
next
  case False
  then obtain projectId u where p: "getProjectIdByColumnId s (cti_columnId input) = Inr projectId"
    and g: "requireProjectMember ctx projectId s = Inr u"
    by (auto simp: createTask_def split: sum.splits)
  let ?task = "\<lparr>t_id = nextId s, t_title = trim (cti_title input),
      t_description = trimOrNull (cti_description input), t_dueDate = cti_dueDate input,
      t_position = (case lastPosition s (cti_columnId input) of None \<Rightarrow> 0 | Some p \<Rightarrow> p) + 1,
      t_status = TODO, t_columnId = cti_columnId input,
      t_creatorId = au_id u, t_assigneeId = cti_assigneeId input\<rparr>"
  show ?thesis
  proof (rule created [of ?task])
    show "t_id ?task = nextId s" "t_columnId ?task = cti_columnId input"
      "t_position ?task = (case lastPosition s (cti_columnId input) of None \<Rightarrow> 0 | Some p \<Rightarrow> p) + 1"
      by simp_all
    show "tasks (snd (createTask ctx input s)) = tasks s @ [?task]"
      using False
      by (auto simp: createTask_def p g Let_def activityLog_create_def split: if_splits)
    show "columns (snd (createTask ctx input s)) = columns s"
      by (auto simp: createTask_def p g Let_def activityLog_create_def split: if_splits)
    show "projects (snd (createTask ctx input s)) = projects s"
      by (auto simp: createTask_def p g Let_def activityLog_create_def split: if_splits)
    show "nextId s < nextId (snd (createTask ctx input s))"
      using False
      by (auto simp: createTask_def p g Let_def activityLog_create_def split: if_splits)
  qed
qed

lemma createTask_valid:
  assumes v: "validStore s"
  shows "validStore (snd (createTask ctx input s))"
proof (cases rule: createTask_effect [of ctx input s])
  case unchanged
  then show ?thesis using v by simp
next
  case (created task)
  let ?s' = "snd (createTask ctx input s)"
  let ?c = "cti_columnId input"
  have okc: "\<And>p. contiguous (columnPositions s p)" and okt: "\<And>c. contiguous (taskPositions s c)"
    and d: "distinct (map t_id (tasks s))" and lt: "\<forall>t \<in> set (tasks s). t_id t < nextId s"
    and fk: "\<forall>c \<in> set (columns s). projectExists s (c_projectId c)"
    using v by (simp_all add: validStore_unfold)
  have pos: "t_position task = int (length (taskPositions s ?c)) + 1"
    using created(3) lastPosition_contiguous [OF okt [of ?c]] by simp
  have "contiguous (taskPositions ?s' c)" for c
  proof (cases "c = ?c")
    case True
    have "taskPositions ?s' ?c = taskPositions s ?c @ [int (length (taskPositions s ?c)) + 1]"
      using pos by (simp add: taskPositions_def created(2,4))
    then show ?thesis using True contiguous_snoc [OF okt [of ?c]] by simp
  next
    case False
    then have "taskPositions ?s' c = taskPositions s c"
      by (simp add: taskPositions_def created(2,4))
    then show ?thesis using okt by simp
  qed
  moreover have "contiguous (columnPositions ?s' p)" for p
    using okc [of p] by (simp add: columnPositions_def created(5))
  moreover have "distinct (map t_id (tasks ?s'))"
    using d lt by (auto simp: created(1,4))
  moreover have "\<forall>t \<in> set (tasks ?s'). t_id t < nextId ?s'"
    using lt created(7) by (auto simp: created(1,4))
  moreover have "\<forall>c \<in> set (columns ?s'). projectExists ?s' (c_projectId c)"
    using fk by (simp add: created(5,6) projectExists_def)
  ultimately show ?thesis by (simp add: validStore_unfold)
qed

lemma execute_valid:
  "validStore s \<Longrightarrow> inRange m s \<Longrightarrow> validStore (snd (execute ctx m s))"
  by (cases m) (simp_all add: returning_def createColumn_valid createTask_valid moveTask_valid)

text \<open>
  Claim C1, as amended. Starting from a valid store, after every sequence of \<open>createColumn\<close>,
  \<open>createTask\<close> and \<open>moveTask\<close> calls executed one after another, whatever each call
  returns, the column positions of each project and the task positions of each column are
  exactly 1..count with no gap and no duplicate, provided every \<open>createColumn\<close> position is
  at most count + 1 of its project and every \<open>moveTask\<close> to another column has a position
  at most count + 1 of the target column. (A \<open>moveTask\<close> within one column needs no bound:
  the column is renumbered afterwards.)
\<close>

theorem positions_stay_contiguous:
  assumes "validStore s" and "admissible calls s"
  shows "validStore (run calls s) \<and> positionsOk (run calls s)"
  using assms
proof (induction calls arbitrary: s)
  case Nil
  then show ?case by (simp add: validStore_def)
next
  case (Cons call calls)
  obtain ctx m where call: "call = (ctx, m)" by (cases call)
  have "validStore (snd (execute ctx m s))"
    using Cons.prems execute_valid by (simp add: call)
  then show ?case using Cons.IH Cons.prems by (simp add: call)
qed

theorem positions_stay_contiguous_witness:
  "validStore demo_store \<and> admissible demo_calls demo_store
   \<and> validStore (run demo_calls demo_store) \<and> positionsOk (run demo_calls demo_store)"
proof -
  have v: "validStore demo_store" by code_simp
  have a: "admissible demo_calls demo_store" by code_simp
  show ?thesis using positions_stay_contiguous [OF v a] v a by simp
qed

text \<open>
  The claim as first stated, for every sequence, fails: no call checks the upper bound, and
  \<open>createColumn\<close> at position 5 in a project of three columns leaves positions 1, 2, 3, 5.
\<close>

theorem createColumn_beyond_tail_leaves_gap:
  "validStore demo_store
   \<and> \<not> positionsOk (run [(alice, CreateColumn \<lparr>cci_projectId = 10, cci_title = ''X'', cci_position = 5\<rparr>)]
          demo_store)
   \<and> columnPositions (run [(alice, CreateColumn \<lparr>cci_projectId = 10, cci_title = ''X'', cci_position = 5\<rparr>)]
          demo_store) 10 = [1, 2, 3, 5]"
  by code_simp

subsection \<open>Moving a task within its column\<close>

text \<open>
  Claim C2 at a concrete input. Column 12 holds tasks 15, 16, 17 at positions 1, 2, 3. Moving
  task 15 to position 2 of the same column succeeds and returns the task with position 2,
  but the store keeps it at position 1: the target is shifted and the task placed before the
  source column is renumbered, so a task that moves down lands one place short.
\<close>

theorem moveTask_down_lands_one_short:
  "fst (moveTask alice \<lparr>mti_taskId = 15, mti_toColumnId = 12, mti_toPosition = 2\<rparr> demo_store)
     = Inr ((tasks demo_store ! 0)\<lparr>t_position := 2\<rparr>)
   \<and> map (\<lambda>t. (t_id t, t_columnId t, t_position t))
        (tasks (snd (moveTask alice \<lparr>mti_taskId = 15, mti_toColumnId = 12, mti_toPosition = 2\<rparr>
           demo_store)))
       = [(15, 12, 1), (16, 12, 2), (17, 12, 3), (18, 13, 1)]"
  by code_simp

end
